theory Spec2Isabelle
  imports Complex_Main
begin

section \<open>Numbers (IEEE 754 binary64)\<close>

text \<open>
  A JavaScript number is a double: a finite value, one of the two infinities or NaN.
  \<open>Finite r\<close> stands for the double of value \<open>r\<close>; every operation rounds its exact
  result to the nearest double, ties to the even significand, and overflows to an
  infinity. Positive and negative zero are one value, \<open>Finite 0\<close>: the code modelled here
  never divides by a number it computed and prints both zeros alike.
\<close>

datatype number = NaN | PosInf | NegInf | Finite real

definition twoPow :: "int \<Rightarrow> real" where
  "twoPow k = (if 0 \<le> k then 2 ^ nat k else 1 / 2 ^ nat (- k))"

text \<open>
  The binary exponent \<open>e\<close> of a positive real, \<open>2 ^ e \<le> a < 2 ^ (e + 1)\<close>, kept within
  the exponents of the format: 1023 at most, and -1022, the exponent of the subnormal
  numbers, at least.
\<close>

fun expUp :: "nat \<Rightarrow> real \<Rightarrow> int" where
  "expUp n a = (if n = 0 \<or> a < 2 then 0 else 1 + expUp (n - 1) (a / 2))"

fun expDown :: "nat \<Rightarrow> real \<Rightarrow> int" where
  "expDown n a = (if n = 0 \<or> 1 \<le> a then 0 else expDown (n - 1) (a * 2) - 1)"

declare expUp.simps [simp del]

declare expDown.simps [simp del]

definition exponentOf :: "real \<Rightarrow> int" where
  "exponentOf a = (if 1 \<le> a then expUp 1023 a else expDown 1022 a)"

definition roundHalfEven :: "real \<Rightarrow> int" where
  "roundHalfEven y =
     (let f = \<lfloor>y\<rfloor>; d = y - of_int f
      in if d < 1 / 2 then f else if 1 / 2 < d then f + 1
         else if even f then f else f + 1)"

text \<open>
  Rounding to 53 significant bits: the spacing of the doubles around \<open>a\<close> is
  \<open>2 ^ (e - 52)\<close>. A result of \<open>2 ^ 1024\<close> or more is an infinity.
\<close>

definition roundDouble :: "real \<Rightarrow> number" where
  "roundDouble x =
     (if x = 0 then Finite 0
      else (let a = \<bar>x\<bar>;
                q = twoPow (exponentOf a - 52);
                r = of_int (roundHalfEven (a / q)) * q
            in if 2 ^ 1024 \<le> r then (if x < 0 then NegInf else PosInf)
               else Finite (if x < 0 then - r else r)))"

text \<open>A decimal literal of the source is the double nearest to it.\<close>

definition lit :: "real \<Rightarrow> number" where
  "lit x = roundDouble x"

definition isNegative :: "number \<Rightarrow> bool" where
  "isNegative v = (case v of Finite r \<Rightarrow> r < 0 | NegInf \<Rightarrow> True | _ \<Rightarrow> False)"

fun fneg :: "number \<Rightarrow> number" where
  "fneg (Finite a) = Finite (- a)"
| "fneg PosInf = NegInf"
| "fneg NegInf = PosInf"
| "fneg NaN = NaN"

fun fadd :: "number \<Rightarrow> number \<Rightarrow> number" where
  "fadd (Finite a) (Finite b) = roundDouble (a + b)"
| "fadd NaN b = NaN"
| "fadd a NaN = NaN"
| "fadd PosInf NegInf = NaN"
| "fadd NegInf PosInf = NaN"
| "fadd PosInf b = PosInf"
| "fadd a PosInf = PosInf"
| "fadd NegInf b = NegInf"
| "fadd a NegInf = NegInf"

definition fsub :: "number \<Rightarrow> number \<Rightarrow> number" where
  "fsub a b = fadd a (fneg b)"

definition fmul :: "number \<Rightarrow> number \<Rightarrow> number" where
  "fmul a b =
     (case (a, b) of
        (Finite x, Finite y) \<Rightarrow> roundDouble (x * y)
      | _ \<Rightarrow> if a = NaN \<or> b = NaN \<or> a = Finite 0 \<or> b = Finite 0 then NaN
             else if isNegative a \<noteq> isNegative b then NegInf else PosInf)"

text \<open>Division; a zero divisor is the positive zero.\<close>

definition fdiv :: "number \<Rightarrow> number \<Rightarrow> number" where
  "fdiv a b =
     (case (a, b) of
        (Finite x, Finite y) \<Rightarrow>
          if y = 0 then (if x = 0 then NaN else if x < 0 then NegInf else PosInf)
          else roundDouble (x / y)
      | (Finite x, _) \<Rightarrow> if b = NaN then NaN else Finite 0
      | (_, Finite y) \<Rightarrow>
          if a = NaN then NaN
          else if isNegative a \<noteq> (y < 0) then NegInf else PosInf
      | _ \<Rightarrow> NaN)"

text \<open>\<^verbatim>\<open>Math.sqrt\<close>, correctly rounded.\<close>

definition fsqrt :: "number \<Rightarrow> number" where
  "fsqrt a =
     (case a of
        Finite x \<Rightarrow> if x < 0 then NaN else roundDouble (sqrt x)
      | PosInf \<Rightarrow> PosInf
      | _ \<Rightarrow> NaN)"

text \<open>
  \<^verbatim>\<open>a ** 2\<close>. The language leaves the accuracy of \<^verbatim>\<open>**\<close> to the engine; the square is
  taken as the correctly rounded product, which is what the engines compute for the
  exponent 2.
\<close>

definition fsquare :: "number \<Rightarrow> number" where
  "fsquare a = fmul a a"

text \<open>The comparisons \<^verbatim>\<open><\<close>, \<^verbatim>\<open>>\<close>, \<^verbatim>\<open><=\<close>, \<^verbatim>\<open>>=\<close>: all false on NaN.\<close>

fun flt :: "number \<Rightarrow> number \<Rightarrow> bool" where
  "flt (Finite a) (Finite b) = (a < b)"
| "flt NaN b = False"
| "flt a NaN = False"
| "flt a NegInf = False"
| "flt NegInf b = True"
| "flt PosInf b = False"
| "flt a PosInf = True"

definition fgt :: "number \<Rightarrow> number \<Rightarrow> bool" where
  "fgt a b = flt b a"

definition fle :: "number \<Rightarrow> number \<Rightarrow> bool" where
  "fle a b = (a \<noteq> NaN \<and> b \<noteq> NaN \<and> (flt a b \<or> a = b))"

definition fge :: "number \<Rightarrow> number \<Rightarrow> bool" where
  "fge a b = fle b a"

text \<open>\<^verbatim>\<open>Math.min\<close> and \<^verbatim>\<open>Math.max\<close> of two numbers: NaN when either is.\<close>

definition fmin :: "number \<Rightarrow> number \<Rightarrow> number" where
  "fmin a b = (if a = NaN \<or> b = NaN then NaN else if flt b a then b else a)"

definition fmax :: "number \<Rightarrow> number \<Rightarrow> number" where
  "fmax a b = (if a = NaN \<or> b = NaN then NaN else if flt a b then b else a)"

subsection \<open>Numbers as text\<close>

text \<open>
  \<^verbatim>\<open>Number.prototype.toFixed\<close> as the language defines it, for a number of digits from 0
  to 100. The conversion of a number to text by default, which \<^verbatim>\<open>toFixed\<close> falls back
  to for a number that is not finite or of magnitude \<open>10 ^ 21\<close> or more, is the
  argument \<open>str\<close>.
\<close>

definition digitChar :: "nat \<Rightarrow> char" where
  "digitChar d = ''0123456789'' ! d"

fun decimalDigits :: "nat \<Rightarrow> string" where
  "decimalDigits n =
     (if n < 10 then [digitChar n] else decimalDigits (n div 10) @ [digitChar (n mod 10)])"

declare decimalDigits.simps [simp del]

definition toFixed :: "(number \<Rightarrow> string) \<Rightarrow> nat \<Rightarrow> number \<Rightarrow> string" where
  "toFixed str f v =
     (case v of
        Finite x \<Rightarrow>
          (let s = (if x < 0 then ''-'' else []);
               a = \<bar>x\<bar>
           in if 10 ^ 21 \<le> a then s @ str (Finite a)
              else (let n = nat \<lfloor>a * 10 ^ f + 1 / 2\<rfloor>;
                        m = (if n = 0 then ''0'' else decimalDigits n)
                    in if f = 0 then s @ m
                       else (let m' = (if length m \<le> f
                                       then replicate (f + 1 - length m) (CHR ''0'') @ m
                                       else m);
                                 k = length m'
                             in s @ take (k - f) m' @ ''.'' @ drop (k - f) m')))
      | _ \<Rightarrow> str v)"

section \<open>Data model (src/types.ts)\<close>

text \<open>
  A JavaScript string that a template literal builds from numbers is modelled as the
  list of its fragments, each interpolated number kept together with the conversion the
  source applies to it: \<open>Num v\<close> is the default conversion \<^verbatim>\<open>${v}\<close>, \<open>Fixed n v\<close> is
  \<^verbatim>\<open>${v.toFixed(n)}\<close>, \<open>Lit s\<close> is literal text (or an interpolated string). \<open>flatten\<close>
  gives the text itself. Identifiers and colours are plain strings.
\<close>

datatype BrushType = Pen | Marker | Calligraphy | Eraser | Select

datatype frag = Lit string | Num number | Fixed nat number

type_synonym jsstring = "frag list"

fun fragText :: "(number \<Rightarrow> string) \<Rightarrow> frag \<Rightarrow> string" where
  "fragText str (Lit s) = s"
| "fragText str (Num v) = str v"
| "fragText str (Fixed n v) = toFixed str n v"

definition flatten :: "(number \<Rightarrow> string) \<Rightarrow> jsstring \<Rightarrow> string" where
  "flatten str frags = concat (map (fragText str) frags)"

record Point =
  pt_x :: number
  pt_y :: number
  pressure :: number

record Stroke =
  stroke_id :: string
  points :: "Point list"
  color :: string
  strokeWidth :: number
  brushType :: BrushType
  pathData :: jsstring

record SelectionRect =
  rect_x1 :: number
  rect_y1 :: number
  rect_x2 :: number
  rect_y2 :: number

record BoundingBox =
  minX :: number
  minY :: number
  maxX :: number
  maxY :: number

section \<open>Geometry (src/utils/drawingUtils.ts)\<close>

text \<open>
  The loop of \<^verbatim>\<open>getSvgPathFromPoints\<close> runs over \<open>i = 1 .. length - 2\<close> and reads
  \<open>points[i]\<close> and \<open>points[i + 1]\<close>: \<open>quadSegments\<close> is that loop on the list
  \<open>points.slice(1)\<close>, one step per adjacent pair.
\<close>

fun quadSegments :: "Point list \<Rightarrow> jsstring" where
  "quadSegments (p # q # rest) =
     [Lit '' Q '', Num (pt_x p), Lit '' '', Num (pt_y p), Lit '', '',
      Num (fdiv (fadd (pt_x p) (pt_x q)) (Finite 2)), Lit '' '',
      Num (fdiv (fadd (pt_y p) (pt_y q)) (Finite 2))]
     @ quadSegments (q # rest)"
| "quadSegments _ = []"

definition getSvgPathFromPoints :: "Point list \<Rightarrow> jsstring" where
  "getSvgPathFromPoints pts =
     (case pts of
        [] \<Rightarrow> []
      | [p] \<Rightarrow> [Lit ''M '', Num (pt_x p), Lit '' '', Num (pt_y p),
                Lit '' L '', Num (pt_x p), Lit '' '', Num (fadd (pt_y p) (lit 0.1))]
      | p # rest \<Rightarrow>
          [Lit ''M '', Num (pt_x p), Lit '' '', Num (pt_y p)]
          @ quadSegments rest
          @ [Lit '' L '', Num (pt_x (last pts)), Lit '' '', Num (pt_y (last pts))])"

text \<open>The body of the loop of \<^verbatim>\<open>getStrokeBoundingBox\<close>, which starts from the infinities.\<close>

definition growBox :: "BoundingBox \<Rightarrow> Point \<Rightarrow> BoundingBox" where
  "growBox bb pt =
     \<lparr>minX = (if flt (pt_x pt) (minX bb) then pt_x pt else minX bb),
      minY = (if flt (pt_y pt) (minY bb) then pt_y pt else minY bb),
      maxX = (if fgt (pt_x pt) (maxX bb) then pt_x pt else maxX bb),
      maxY = (if fgt (pt_y pt) (maxY bb) then pt_y pt else maxY bb)\<rparr>"

definition emptyBox :: BoundingBox where
  "emptyBox = \<lparr>minX = PosInf, minY = PosInf, maxX = NegInf, maxY = NegInf\<rparr>"

definition getStrokeBoundingBox :: "Stroke \<Rightarrow> BoundingBox" where
  "getStrokeBoundingBox stroke =
     (if length (points stroke) = 0
      then \<lparr>minX = Finite 0, minY = Finite 0, maxX = Finite 0, maxY = Finite 0\<rparr>
      else foldl growBox emptyBox (points stroke))"

section \<open>The document store (hooks/useSketchpad.ts)\<close>

text \<open>
  The hook's state cells are the fields of one record. Every callback is a transition on
  that record: the callback runs to completion, with all its state updates applied,
  before the next one starts, and it reads the cells as they are when it starts. This
  is what happens when an event makes one call; events that make several calls before
  the component renders again are the subject of a later section.
\<close>

record Sketchpad =
  strokes :: "Stroke list"
  undoStack :: "Stroke list list"
  redoStack :: "Stroke list list"
  currentStroke :: "Stroke option"
  currentTool :: BrushType
  currentColor :: string
  currentWidth :: number
  selection :: "string list"
  focusedId :: "string option"
  isDirty :: bool

definition initialSketchpad :: Sketchpad where
  "initialSketchpad =
     \<lparr>strokes = [], undoStack = [], redoStack = [], currentStroke = None,
      currentTool = Pen, currentColor = ''#000000'', currentWidth = Finite 5,
      selection = [], focusedId = None, isDirty = False\<rparr>"

text \<open>
  \<^verbatim>\<open>xs.slice(-n)\<close> for \<open>n > 0\<close>: the last \<open>n\<close> elements, all of them when there are
  fewer. The hook calls it with 50.
\<close>

definition sliceLast :: "nat \<Rightarrow> 'a list \<Rightarrow> 'a list" where
  "sliceLast n xs = drop (length xs - n) xs"

definition markClean :: "Sketchpad \<Rightarrow> Sketchpad" where
  "markClean s = s\<lparr>isDirty := False\<rparr>"

definition markDirty :: "Sketchpad \<Rightarrow> Sketchpad" where
  "markDirty s = s\<lparr>isDirty := True\<rparr>"

definition loadStrokes :: "Stroke list \<Rightarrow> Sketchpad \<Rightarrow> Sketchpad" where
  "loadStrokes newStrokes s =
     s\<lparr>strokes := newStrokes, undoStack := [], redoStack := [], selection := [],
       focusedId := None, currentStroke := None, isDirty := False\<rparr>"

definition saveStateToUndo :: "Stroke list \<Rightarrow> Sketchpad \<Rightarrow> Sketchpad" where
  "saveStateToUndo currentStrokes s =
     markDirty (s\<lparr>undoStack := sliceLast 50 (undoStack s @ [currentStrokes]),
                  redoStack := []\<rparr>)"

text \<open>The identifier that \<^verbatim>\<open>nanoid()\<close> draws is an argument of \<open>startDrawing\<close>.\<close>

definition startDrawing :: "string \<Rightarrow> Point \<Rightarrow> Sketchpad \<Rightarrow> Sketchpad" where
  "startDrawing newId point s =
     (if currentTool s = Eraser \<or> currentTool s = Select then s
      else s\<lparr>currentStroke := Some
             \<lparr>stroke_id = newId, points = [point], color = currentColor s,
              strokeWidth = (if currentTool s = Calligraphy
                             then fmul (currentWidth s) (Finite 1.5)
                             else currentWidth s),
              brushType = currentTool s,
              pathData = getSvgPathFromPoints [point]\<rparr>\<rparr>)"

definition continueDrawing :: "Point \<Rightarrow> Sketchpad \<Rightarrow> Sketchpad" where
  "continueDrawing point s =
     (case currentStroke s of
        None \<Rightarrow> s
      | Some prev \<Rightarrow>
          s\<lparr>currentStroke := Some (prev\<lparr>points := points prev @ [point],
                 pathData := getSvgPathFromPoints (points prev @ [point])\<rparr>)\<rparr>)"

definition endDrawing :: "Sketchpad \<Rightarrow> Sketchpad" where
  "endDrawing s =
     (case currentStroke s of
        None \<Rightarrow> s\<lparr>currentStroke := None\<rparr>
      | Some prev \<Rightarrow>
          if length (points prev) > 0
          then (saveStateToUndo (strokes s) s)
                 \<lparr>strokes := strokes s @ [prev], currentStroke := None\<rparr>
          else s\<lparr>currentStroke := None\<rparr>)"

definition undo :: "Sketchpad \<Rightarrow> Sketchpad" where
  "undo s =
     (if length (undoStack s) = 0 then s
      else markDirty (s\<lparr>redoStack := redoStack s @ [strokes s],
                        strokes := last (undoStack s),
                        selection := [], focusedId := None,
                        undoStack := butlast (undoStack s)\<rparr>))"

definition redo :: "Sketchpad \<Rightarrow> Sketchpad" where
  "redo s =
     (if length (redoStack s) = 0 then s
      else markDirty (s\<lparr>undoStack := undoStack s @ [strokes s],
                        strokes := last (redoStack s),
                        selection := [], focusedId := None,
                        redoStack := butlast (redoStack s)\<rparr>))"

definition clear :: "Sketchpad \<Rightarrow> Sketchpad" where
  "clear s =
     (if length (strokes s) = 0 then s
      else (saveStateToUndo (strokes s) s)
             \<lparr>strokes := [], selection := [], focusedId := None\<rparr>)"

definition removeStroke :: "string \<Rightarrow> Sketchpad \<Rightarrow> Sketchpad" where
  "removeStroke i s =
     (saveStateToUndo (strokes s) s)
       \<lparr>strokes := filter (\<lambda>st. stroke_id st \<noteq> i) (strokes s),
        selection := filter (\<lambda>sId. sId \<noteq> i) (selection s),
        focusedId := (if focusedId s = Some i then None else focusedId s)\<rparr>"

definition toggleSelection :: "string \<Rightarrow> Sketchpad \<Rightarrow> Sketchpad" where
  "toggleSelection i s =
     s\<lparr>selection := (if i \<in> set (selection s)
                      then filter (\<lambda>sId. sId \<noteq> i) (selection s)
                      else selection s @ [i]),
       focusedId := (if focusedId s = Some i then None else focusedId s)\<rparr>"

definition clearSelection :: "Sketchpad \<Rightarrow> Sketchpad" where
  "clearSelection s = s\<lparr>selection := [], focusedId := None\<rparr>"

definition selectAll :: "Sketchpad \<Rightarrow> Sketchpad" where
  "selectAll s = s\<lparr>selection := map stroke_id (strokes s)\<rparr>"

definition deleteSelected :: "Sketchpad \<Rightarrow> Sketchpad" where
  "deleteSelected s =
     (if length (selection s) = 0 then s
      else (saveStateToUndo (strokes s) s)
             \<lparr>strokes := filter (\<lambda>st. stroke_id st \<notin> set (selection s)) (strokes s),
              selection := [], focusedId := None\<rparr>)"

definition selectByRect :: "SelectionRect \<Rightarrow> Sketchpad \<Rightarrow> Sketchpad" where
  "selectByRect rect s =
     (let loX = fmin (rect_x1 rect) (rect_x2 rect);
          hiX = fmax (rect_x1 rect) (rect_x2 rect);
          loY = fmin (rect_y1 rect) (rect_y2 rect);
          hiY = fmax (rect_y1 rect) (rect_y2 rect);
          selectedIds =
            map stroke_id
              (filter (\<lambda>stroke. let bb = getStrokeBoundingBox stroke
                               in fge (maxX bb) loX \<and> fle (minX bb) hiX
                                  \<and> fge (maxY bb) loY \<and> fle (minY bb) hiY)
                      (strokes s))
      in s\<lparr>selection := selectedIds, focusedId := None\<rparr>)"

definition toggleFocused :: "string \<Rightarrow> Sketchpad \<Rightarrow> Sketchpad" where
  "toggleFocused i s = s\<lparr>focusedId := (if focusedId s = Some i then None else Some i)\<rparr>"

definition setCurrentTool :: "BrushType \<Rightarrow> Sketchpad \<Rightarrow> Sketchpad" where
  "setCurrentTool t s = s\<lparr>currentTool := t\<rparr>"

definition setCurrentColor :: "string \<Rightarrow> Sketchpad \<Rightarrow> Sketchpad" where
  "setCurrentColor c s = s\<lparr>currentColor := c\<rparr>"

definition setCurrentWidth :: "number \<Rightarrow> Sketchpad \<Rightarrow> Sketchpad" where
  "setCurrentWidth w s = s\<lparr>currentWidth := w\<rparr>"

definition canUndo :: "Sketchpad \<Rightarrow> bool" where
  "canUndo s = (length (undoStack s) > 0)"

definition canRedo :: "Sketchpad \<Rightarrow> bool" where
  "canRedo s = (length (redoStack s) > 0)"

text \<open>
  The operations the hook returns to its callers, as actions, and the gesture that
  commits a stroke: the screen's pan responder calls \<open>startDrawing\<close> when the pointer goes
  down, \<open>continueDrawing\<close> on every move and \<open>endDrawing\<close> on release or termination.
  The bare setter \<open>setFocusedId\<close>, which no caller uses, is left out.
\<close>

datatype Action =
    LoadStrokes "Stroke list"
  | StartDrawing string Point
  | ContinueDrawing Point
  | EndDrawing
  | Undo
  | Redo
  | Clear
  | RemoveStroke string
  | ToggleSelection string
  | ToggleFocused string
  | ClearSelection
  | SelectAll
  | DeleteSelected
  | SelectByRect SelectionRect
  | SetCurrentTool BrushType
  | SetCurrentColor string
  | SetCurrentWidth number
  | MarkClean

fun perform :: "Action \<Rightarrow> Sketchpad \<Rightarrow> Sketchpad" where
  "perform (LoadStrokes newStrokes) s = loadStrokes newStrokes s"
| "perform (StartDrawing newId point) s = startDrawing newId point s"
| "perform (ContinueDrawing point) s = continueDrawing point s"
| "perform EndDrawing s = endDrawing s"
| "perform Undo s = undo s"
| "perform Redo s = redo s"
| "perform Clear s = clear s"
| "perform (RemoveStroke i) s = removeStroke i s"
| "perform (ToggleSelection i) s = toggleSelection i s"
| "perform (ToggleFocused i) s = toggleFocused i s"
| "perform ClearSelection s = clearSelection s"
| "perform SelectAll s = selectAll s"
| "perform DeleteSelected s = deleteSelected s"
| "perform (SelectByRect rect) s = selectByRect rect s"
| "perform (SetCurrentTool t) s = setCurrentTool t s"
| "perform (SetCurrentColor c) s = setCurrentColor c s"
| "perform (SetCurrentWidth w) s = setCurrentWidth w s"
| "perform MarkClean s = markClean s"

definition exec :: "Action list \<Rightarrow> Sketchpad \<Rightarrow> Sketchpad" where
  "exec acts s = foldl (\<lambda>st a. perform a st) s acts"

definition run :: "Action list \<Rightarrow> Sketchpad" where
  "run acts = exec acts initialSketchpad"

text \<open>
  A gesture is the identifier drawn for the stroke, the point of the pointer-down event
  and the points of the move events.
\<close>

type_synonym gesture = "string \<times> Point \<times> Point list"

definition drawStroke :: "gesture \<Rightarrow> Sketchpad \<Rightarrow> Sketchpad" where
  "drawStroke g s =
     (case g of (newId, p, ps) \<Rightarrow>
        endDrawing (foldl (\<lambda>st q. continueDrawing q st) (startDrawing newId p s) ps))"

definition commitAll :: "gesture list \<Rightarrow> Sketchpad \<Rightarrow> Sketchpad" where
  "commitAll gs s = foldl (\<lambda>st g. drawStroke g st) s gs"

definition drawingTool :: "Sketchpad \<Rightarrow> bool" where
  "drawingTool s = (currentTool s \<noteq> Eraser \<and> currentTool s \<noteq> Select)"

text \<open>Test data: \<open>n\<close> one-point gestures with the distinct identifiers \<open>s\<close>, \<open>ss\<close>, ...\<close>

fun tapGestures :: "nat \<Rightarrow> nat \<Rightarrow> gesture list" where
  "tapGestures k 0 = []"
| "tapGestures k (Suc n) =
     (replicate (Suc k) (CHR ''s''), \<lparr>pt_x = Finite (real k), pt_y = Finite 0, pressure = Finite 0.5\<rparr>, [])
     # tapGestures (Suc k) n"

text \<open>
  The invariant of the data model: the selection and the focus name strokes of the
  document. An action addresses the document when the identifier it toggles is one of a
  committed stroke, as it is for every call the screen and the selection panel make.
\<close>

definition strokeIds :: "Sketchpad \<Rightarrow> string set" where
  "strokeIds s = set (map stroke_id (strokes s))"

definition referencesValid :: "Sketchpad \<Rightarrow> bool" where
  "referencesValid s =
     (set (selection s) \<subseteq> strokeIds s
      \<and> (case focusedId s of None \<Rightarrow> True | Some i \<Rightarrow> i \<in> strokeIds s))"

fun addresses :: "Action \<Rightarrow> Sketchpad \<Rightarrow> bool" where
  "addresses (ToggleSelection i) s = (i \<in> strokeIds s)"
| "addresses (ToggleFocused i) s = (i \<in> strokeIds s)"
| "addresses _ s = True"

fun wellAddressed :: "Action list \<Rightarrow> Sketchpad \<Rightarrow> bool" where
  "wellAddressed [] s = True"
| "wellAddressed (a # acts) s = (addresses a s \<and> wellAddressed acts (perform a s))"

section \<open>Events that make several calls\<close>

text \<open>
  A setter does not change its cell: it queues an update, a value or a function of the
  value before, and the queues are worked off when the component renders next, cell by
  cell in the order of the \<^verbatim>\<open>useState\<close> declarations. The functions are run then. The
  functions that \<open>undo\<close>, \<open>redo\<close> and \<open>endDrawing\<close> pass to a setter call setters
  themselves: such an update joins its queue behind the updates that the event has
  queued, and when its cell has been worked off already in this pass, the component
  renders again. All the calls of one event read the cells as they were rendered last.

  When the component has no update pending, React may compute the first update of an
  event at once, at the call of the setter; an update queued earlier in the same event
  rules that out. The functions are taken here to wait for the render.
\<close>

datatype Cell =
    StrokesCell | UndoCell | RedoCell | CurrentCell | ToolCell | ColorCell | WidthCell
  | SelectionCell | FocusedCell | DirtyCell

definition hookOrder :: "Cell list" where
  "hookOrder =
     [StrokesCell, UndoCell, RedoCell, CurrentCell, ToolCell, ColorCell, WidthCell,
      SelectionCell, FocusedCell, DirtyCell]"

text \<open>
  The updates of the hook. The last four are the functions that call setters: the one
  \<open>endDrawing\<close> passes to \<^verbatim>\<open>setCurrentStroke\<close>, the one inside it for \<^verbatim>\<open>setStrokes\<close>, with
  the stroke to commit, and the ones \<open>undo\<close> and \<open>redo\<close> pass to \<^verbatim>\<open>setUndoStack\<close> and
  \<^verbatim>\<open>setRedoStack\<close>, with the strokes their closure holds.
\<close>

datatype Update =
    OnStrokes "Stroke list \<Rightarrow> Stroke list"
  | OnUndo "Stroke list list \<Rightarrow> Stroke list list"
  | OnRedo "Stroke list list \<Rightarrow> Stroke list list"
  | OnCurrent "Stroke option \<Rightarrow> Stroke option"
  | OnTool BrushType
  | OnColor string
  | OnWidth number
  | OnSelection "string list \<Rightarrow> string list"
  | OnFocused "string option \<Rightarrow> string option"
  | OnDirty bool
  | EndUpdater
  | CommitUpdater Stroke
  | UndoUpdater "Stroke list"
  | RedoUpdater "Stroke list"

fun target :: "Update \<Rightarrow> Cell" where
  "target (OnStrokes f) = StrokesCell"
| "target (OnUndo f) = UndoCell"
| "target (OnRedo f) = RedoCell"
| "target (OnCurrent f) = CurrentCell"
| "target (OnTool t) = ToolCell"
| "target (OnColor c) = ColorCell"
| "target (OnWidth w) = WidthCell"
| "target (OnSelection f) = SelectionCell"
| "target (OnFocused f) = FocusedCell"
| "target (OnDirty b) = DirtyCell"
| "target EndUpdater = CurrentCell"
| "target (CommitUpdater prev) = StrokesCell"
| "target (UndoUpdater closureStrokes) = UndoCell"
| "target (RedoUpdater closureStrokes) = RedoCell"

text \<open>What \<open>saveStateToUndo\<close> queues.\<close>

definition recordUpdates :: "Stroke list \<Rightarrow> Update list" where
  "recordUpdates currentStrokes =
     [OnUndo (\<lambda>prev. sliceLast 50 (prev @ [currentStrokes])), OnRedo (\<lambda>_. []), OnDirty True]"

text \<open>An update applied to its cell, and the updates it queues in turn.\<close>

fun applyUpdate :: "Update \<Rightarrow> Sketchpad \<Rightarrow> Sketchpad \<times> Update list" where
  "applyUpdate (OnStrokes f) s = (s\<lparr>strokes := f (strokes s)\<rparr>, [])"
| "applyUpdate (OnUndo f) s = (s\<lparr>undoStack := f (undoStack s)\<rparr>, [])"
| "applyUpdate (OnRedo f) s = (s\<lparr>redoStack := f (redoStack s)\<rparr>, [])"
| "applyUpdate (OnCurrent f) s = (s\<lparr>currentStroke := f (currentStroke s)\<rparr>, [])"
| "applyUpdate (OnTool t) s = (s\<lparr>currentTool := t\<rparr>, [])"
| "applyUpdate (OnColor c) s = (s\<lparr>currentColor := c\<rparr>, [])"
| "applyUpdate (OnWidth w) s = (s\<lparr>currentWidth := w\<rparr>, [])"
| "applyUpdate (OnSelection f) s = (s\<lparr>selection := f (selection s)\<rparr>, [])"
| "applyUpdate (OnFocused f) s = (s\<lparr>focusedId := f (focusedId s)\<rparr>, [])"
| "applyUpdate (OnDirty b) s = (s\<lparr>isDirty := b\<rparr>, [])"
| "applyUpdate EndUpdater s =
     (s\<lparr>currentStroke := None\<rparr>,
      (case currentStroke s of
         None \<Rightarrow> []
       | Some prev \<Rightarrow> if length (points prev) > 0 then [CommitUpdater prev] else []))"
| "applyUpdate (CommitUpdater prev) s =
     (s\<lparr>strokes := strokes s @ [prev]\<rparr>, recordUpdates (strokes s))"
| "applyUpdate (UndoUpdater closureStrokes) s =
     (if length (undoStack s) = 0 then (s, [])
      else (s\<lparr>undoStack := butlast (undoStack s)\<rparr>,
            [OnRedo (\<lambda>r. r @ [closureStrokes]), OnStrokes (\<lambda>_. last (undoStack s)),
             OnSelection (\<lambda>_. []), OnFocused (\<lambda>_. None), OnDirty True]))"
| "applyUpdate (RedoUpdater closureStrokes) s =
     (if length (redoStack s) = 0 then (s, [])
      else (s\<lparr>redoStack := butlast (redoStack s)\<rparr>,
            [OnUndo (\<lambda>u. u @ [closureStrokes]), OnStrokes (\<lambda>_. last (redoStack s)),
             OnSelection (\<lambda>_. []), OnFocused (\<lambda>_. None), OnDirty True]))"

text \<open>
  What a call queues, in the order of its setter calls; \<open>s\<close> is the state as rendered,
  which the closure of the callback holds.
\<close>

fun queued :: "Action \<Rightarrow> Sketchpad \<Rightarrow> Update list" where
  "queued (LoadStrokes newStrokes) s =
     [OnStrokes (\<lambda>_. newStrokes), OnUndo (\<lambda>_. []), OnRedo (\<lambda>_. []), OnSelection (\<lambda>_. []),
      OnFocused (\<lambda>_. None), OnCurrent (\<lambda>_. None), OnDirty False]"
| "queued (StartDrawing newId point) s =
     (if currentTool s = Eraser \<or> currentTool s = Select then []
      else [OnCurrent (\<lambda>_. Some
              \<lparr>stroke_id = newId, points = [point], color = currentColor s,
               strokeWidth = (if currentTool s = Calligraphy
                              then fmul (currentWidth s) (Finite 1.5)
                              else currentWidth s),
               brushType = currentTool s,
               pathData = getSvgPathFromPoints [point]\<rparr>)])"
| "queued (ContinueDrawing point) s =
     [OnCurrent (\<lambda>prev. case prev of
                   None \<Rightarrow> None
                 | Some p \<Rightarrow> Some (p\<lparr>points := points p @ [point],
                      pathData := getSvgPathFromPoints (points p @ [point])\<rparr>))]"
| "queued EndDrawing s = [EndUpdater]"
| "queued Undo s = [UndoUpdater (strokes s)]"
| "queued Redo s = [RedoUpdater (strokes s)]"
| "queued Clear s =
     (if length (strokes s) = 0 then []
      else recordUpdates (strokes s)
           @ [OnStrokes (\<lambda>_. []), OnSelection (\<lambda>_. []), OnFocused (\<lambda>_. None)])"
| "queued (RemoveStroke i) s =
     recordUpdates (strokes s)
     @ [OnStrokes (\<lambda>prev. filter (\<lambda>st. stroke_id st \<noteq> i) prev),
        OnSelection (\<lambda>prev. filter (\<lambda>sId. sId \<noteq> i) prev),
        OnFocused (\<lambda>prev. if prev = Some i then None else prev)]"
| "queued (ToggleSelection i) s =
     [OnSelection (\<lambda>prev. if i \<in> set prev then filter (\<lambda>sId. sId \<noteq> i) prev else prev @ [i]),
      OnFocused (\<lambda>prev. if prev = Some i then None else prev)]"
| "queued (ToggleFocused i) s =
     [OnFocused (\<lambda>prev. if prev = Some i then None else Some i)]"
| "queued ClearSelection s = [OnSelection (\<lambda>_. []), OnFocused (\<lambda>_. None)]"
| "queued SelectAll s = [OnSelection (\<lambda>_. map stroke_id (strokes s))]"
| "queued DeleteSelected s =
     (if length (selection s) = 0 then []
      else recordUpdates (strokes s)
           @ [OnStrokes (\<lambda>prev. filter (\<lambda>st. stroke_id st \<notin> set (selection s)) prev),
              OnSelection (\<lambda>_. []), OnFocused (\<lambda>_. None)])"
| "queued (SelectByRect rect) s =
     [OnSelection (\<lambda>_. selection (selectByRect rect s)), OnFocused (\<lambda>_. None)]"
| "queued (SetCurrentTool t) s = [OnTool t]"
| "queued (SetCurrentColor c) s = [OnColor c]"
| "queued (SetCurrentWidth w) s = [OnWidth w]"
| "queued MarkClean s = [OnDirty False]"

text \<open>The queue of one cell worked off, the updates it queues collected in order.\<close>

fun applyAll :: "Update list \<Rightarrow> Sketchpad \<times> Update list \<Rightarrow> Sketchpad \<times> Update list" where
  "applyAll [] acc = acc"
| "applyAll (u # us) (s, nested) =
     (case applyUpdate u s of (s', further) \<Rightarrow> applyAll us (s', nested @ further))"

definition processCell :: "Cell \<Rightarrow> Update list \<times> Sketchpad \<Rightarrow> Update list \<times> Sketchpad" where
  "processCell c st =
     (case st of (pending, s) \<Rightarrow>
        (case applyAll (filter (\<lambda>u. target u = c) pending) (s, []) of
           (s', nested) \<Rightarrow> (filter (\<lambda>u. target u \<noteq> c) pending @ nested, s')))"

definition renderPass :: "Update list \<times> Sketchpad \<Rightarrow> Update list \<times> Sketchpad" where
  "renderPass st = foldl (\<lambda>acc c. processCell c acc) st hookOrder"

text \<open>
  The component renders until no update is left; React gives up, with an error, after
  25 passes.
\<close>

fun settle :: "nat \<Rightarrow> Update list \<times> Sketchpad \<Rightarrow> Sketchpad option" where
  "settle n (pending, s) =
     (if pending = [] then Some s
      else if n = 0 then None
      else settle (n - 1) (renderPass (pending, s)))"

declare settle.simps [simp del]

definition handleEvent :: "Action list \<Rightarrow> Sketchpad \<Rightarrow> Sketchpad option" where
  "handleEvent calls s = settle 25 (concat (map (\<lambda>a. queued a s) calls), s)"

fun runEvents :: "Action list list \<Rightarrow> Sketchpad \<Rightarrow> Sketchpad option" where
  "runEvents [] s = Some s"
| "runEvents (calls # rest) s =
     (case handleEvent calls s of None \<Rightarrow> None | Some s' \<Rightarrow> runEvents rest s')"

text \<open>The calls of a drawing gesture, one event each.\<close>

definition gestureCalls :: "gesture \<Rightarrow> Action list" where
  "gestureCalls g =
     (case g of (newId, p, ps) \<Rightarrow> StartDrawing newId p # map ContinueDrawing ps @ [EndDrawing])"

text \<open>
  Fifty strokes are drawn; one event then undoes and erases the first stroke; the next
  event redoes.
\<close>

definition overCapEvents :: "Action list list" where
  "overCapEvents =
     map (\<lambda>a. [a]) (concat (map gestureCalls (tapGestures 0 50)))
     @ [[Undo, RemoveStroke ''s''], [Redo]]"

text \<open>
  The same, the event changing the colour first: the function of \<open>undo\<close> is then queued
  behind a pending update.
\<close>

definition overCapEventsPending :: "Action list list" where
  "overCapEventsPending =
     map (\<lambda>a. [a]) (concat (map gestureCalls (tapGestures 0 50)))
     @ [[SetCurrentColor ''#ff0000'', Undo, RemoveStroke ''s''], [Redo]]"

section \<open>Hit testing (screens/SketchScreen.tsx)\<close>

definition pointDistance :: "number \<Rightarrow> number \<Rightarrow> Point \<Rightarrow> number" where
  "pointDistance x y pt =
     fsqrt (fadd (fsquare (fsub (pt_x pt) x)) (fsquare (fsub (pt_y pt) y)))"

text \<open>The body of the inner loop, on the pair \<open>(bestId, bestDist)\<close>.\<close>

definition scanPoint ::
  "number \<Rightarrow> number \<Rightarrow> string \<Rightarrow> string option \<times> number \<Rightarrow> Point
   \<Rightarrow> string option \<times> number" where
  "scanPoint x y owner best pt =
     (let d = pointDistance x y pt
      in if flt d (snd best) then (Some owner, d) else best)"

definition findNearestStrokeId ::
  "number \<Rightarrow> number \<Rightarrow> Stroke list \<Rightarrow> number \<Rightarrow> string option" where
  "findNearestStrokeId x y strks radius =
     fst (foldl (\<lambda>best stroke. foldl (scanPoint x y (stroke_id stroke)) best (points stroke))
                (None, radius) strks)"

text \<open>
  The distance in the words of the claim: the Euclidean formula
  \<open>sqrt ((px - x)\<^sup>2 + (py - y)\<^sup>2)\<close>, every operation of it rounded to a double.
\<close>

definition roundedEuclid :: "number \<Rightarrow> number \<Rightarrow> number \<Rightarrow> number \<Rightarrow> number" where
  "roundedEuclid x y px py =
     fsqrt (fadd (fmul (fsub px x) (fsub px x)) (fmul (fsub py y) (fsub py y)))"

text \<open>
  Every point of every stroke, in document order, with the identifier of its stroke and
  that distance to the query point.
\<close>

definition candidates :: "number \<Rightarrow> number \<Rightarrow> Stroke list \<Rightarrow> (string \<times> number) list" where
  "candidates x y strks =
     concat (map (\<lambda>stroke. map (\<lambda>pt. (stroke_id stroke, roundedEuclid x y (pt_x pt) (pt_y pt)))
                                  (points stroke))
                 strks)"

section \<open>Canvas rendering (components/SkiaCanvas.tsx)\<close>

text \<open>
  The elements a stroke is drawn with: a path (path data, stroke width, colour, opacity
  and dash intervals when given), a line (two end points, colour, stroke width) and a
  group (opacity when given, children).
\<close>

datatype SkiaNode =
    PathNode jsstring number string "number option" "number list option"
  | LineNode "number \<times> number" "number \<times> number" string number
  | GroupNode "number option" "SkiaNode list"

definition SELECTION_COLOR :: string where
  "SELECTION_COLOR = ''#FF8C00''"

definition FOCUSED_COLOR :: string where
  "FOCUSED_COLOR = ''#00CFFF''"

text \<open>
  \<^verbatim>\<open>points.slice(0, -1).map((pt, i) => ... points[i + 1] ...)\<close> visits each point but the
  last together with its successor.
\<close>

definition adjacentPairs :: "'a list \<Rightarrow> ('a \<times> 'a) list" where
  "adjacentPairs xs = zip (butlast xs) (tl xs)"

definition MarkerStroke :: "Stroke \<Rightarrow> bool \<Rightarrow> bool \<Rightarrow> SkiaNode" where
  "MarkerStroke stroke isSelected isFocused =
     (let highlightColor = (if isFocused then FOCUSED_COLOR else SELECTION_COLOR)
      in GroupNode None
           ((if isSelected \<and> length (points stroke) > 1
             then [PathNode (pathData stroke) (fadd (strokeWidth stroke) (Finite 6))
                     highlightColor (Some (lit 0.6)) (Some [Finite 4, Finite 4])]
             else [])
            @ [GroupNode (Some (Finite 0.5))
                 [PathNode (pathData stroke) (strokeWidth stroke) (color stroke) None None]]))"

definition calligraphyWidth :: "Stroke \<Rightarrow> Point \<Rightarrow> Point \<Rightarrow> number" where
  "calligraphyWidth stroke pt next =
     (let avgPressure = fdiv (fadd (pressure pt) (pressure next)) (Finite 2)
      in fmax (Finite 1) (fmul (fmul (strokeWidth stroke) avgPressure) (Finite 1.5)))"

definition RegularStroke :: "Stroke \<Rightarrow> bool \<Rightarrow> bool \<Rightarrow> SkiaNode" where
  "RegularStroke stroke isSelected isFocused =
     (let highlightColor = (if isFocused then FOCUSED_COLOR else SELECTION_COLOR);
          isCalligraphy = (brushType stroke = Calligraphy)
      in GroupNode None
           ((if isSelected
             then [PathNode (pathData stroke) (fadd (strokeWidth stroke) (Finite 4))
                     highlightColor (Some (lit 0.6)) (Some [Finite 4, Finite 4])]
             else [])
            @ (if isCalligraphy \<and> length (points stroke) > 1
               then map (\<lambda>(pt, next).
                           LineNode (pt_x pt, pt_y pt) (pt_x next, pt_y next) (color stroke)
                             (calligraphyWidth stroke pt next))
                        (adjacentPairs (points stroke))
               else [PathNode (pathData stroke) (strokeWidth stroke) (color stroke)
                       None None])))"

definition renderStroke :: "string list \<Rightarrow> string option \<Rightarrow> Stroke \<Rightarrow> bool \<Rightarrow> SkiaNode" where
  "renderStroke sel focused stroke isCurrent =
     (let isSelected = (\<not> isCurrent \<and> stroke_id stroke \<in> set sel);
          isFocused = (\<not> isCurrent \<and> focused = Some (stroke_id stroke))
      in if brushType stroke = Marker then MarkerStroke stroke isSelected isFocused
         else RegularStroke stroke isSelected isFocused)"

text \<open>The stroke widths of the line segments of a rendered stroke, in drawing order.\<close>

fun lineWidths :: "SkiaNode \<Rightarrow> number list" where
  "lineWidths (PathNode d w c op dash) = []"
| "lineWidths (LineNode p1 p2 c w) = [w]"
| "lineWidths (GroupNode op children) = concat (map lineWidths children)"

definition withPressures :: "(Point \<Rightarrow> number) \<Rightarrow> Stroke \<Rightarrow> Stroke" where
  "withPressures f stroke =
     stroke\<lparr>points := map (\<lambda>pt. pt\<lparr>pressure := f pt\<rparr>) (points stroke)\<rparr>"

section \<open>SVG serialisation (src/utils/drawingUtils.ts)\<close>










text \<open>
  What an export formats, read off its fragments: the numbers that went through
  \<^verbatim>\<open>toFixed\<close>, each with its number of decimals, and the numbers that went through the
  default conversion.
\<close>

fun fixedNumbers :: "jsstring \<Rightarrow> (nat \<times> number) list" where
  "fixedNumbers [] = []"
| "fixedNumbers (Fixed n v # rest) = (n, v) # fixedNumbers rest"
| "fixedNumbers (_ # rest) = fixedNumbers rest"

fun defaultNumbers :: "jsstring \<Rightarrow> number list" where
  "defaultNumbers [] = []"
| "defaultNumbers (Num v # rest) = v # defaultNumbers rest"
| "defaultNumbers (_ # rest) = defaultNumbers rest"







section \<open>Persistence (hooks/useDrawingStorage.ts)\<close>

record Drawing =
  drawing_id :: string
  drawing_name :: string
  drawing_strokes :: "Stroke list"
  canvasWidth :: number
  canvasHeight :: number
  thumbnailSvg :: jsstring
  createdAt :: string
  updatedAt :: string

record DrawingStorage =
  drawings :: "Drawing list"
  isLoading :: bool
  error :: "string option"

text \<open>
  What the hook calls and does not define: \<^verbatim>\<open>AsyncStorage.getItem\<close>, whose promise
  rejects or resolves to a string or to \<^verbatim>\<open>null\<close>; \<^verbatim>\<open>JSON.parse\<close> on the index and on
  a record, which throws on malformed text; \<^verbatim>\<open>new Date(text).getTime()\<close>.
\<close>

datatype thrown = StorageFailure | SyntaxError

record Runtime =
  getItem :: "string \<Rightarrow> thrown + string option"
  parseIndex :: "string \<Rightarrow> thrown + string list"
  parseDrawing :: "string \<Rightarrow> thrown + Drawing"
  getTime :: "string \<Rightarrow> int"

definition DRAWINGS_INDEX_KEY :: string where
  "DRAWINGS_INDEX_KEY = ''drawings_index''"

definition DRAWING_PREFIX :: string where
  "DRAWING_PREFIX = ''drawing_''"

text \<open>
  The loop over the identifiers of the index. An exception leaves the loop: the drawings
  decoded so far are dropped with it. A text is falsy when it is \<^verbatim>\<open>null\<close> or empty.
\<close>

fun loadEach :: "Runtime \<Rightarrow> string list \<Rightarrow> Drawing list \<Rightarrow> thrown + Drawing list" where
  "loadEach rt [] loadedDrawings = Inr loadedDrawings"
| "loadEach rt (i # ids) loadedDrawings =
     (case getItem rt (DRAWING_PREFIX @ i) of
        Inl e \<Rightarrow> Inl e
      | Inr None \<Rightarrow> loadEach rt ids loadedDrawings
      | Inr (Some drawingJson) \<Rightarrow>
          if drawingJson = [] then loadEach rt ids loadedDrawings
          else (case parseDrawing rt drawingJson of
                  Inl e \<Rightarrow> Inl e
                | Inr drawing \<Rightarrow>
                    loadEach rt ids (loadedDrawings @ [drawing\<lparr>drawing_strokes := []\<rparr>])))"

text \<open>The body of the \<^verbatim>\<open>try\<close> block: the new list of drawings, or what was thrown.\<close>

definition tryLoad :: "Runtime \<Rightarrow> thrown + Drawing list" where
  "tryLoad rt =
     (case getItem rt DRAWINGS_INDEX_KEY of
        Inl e \<Rightarrow> Inl e
      | Inr None \<Rightarrow> Inr []
      | Inr (Some indexJson) \<Rightarrow>
          if indexJson = [] then Inr []
          else (case parseIndex rt indexJson of
                  Inl e \<Rightarrow> Inl e
                | Inr ids \<Rightarrow>
                    (case loadEach rt ids [] of
                       Inl e \<Rightarrow> Inl e
                     | Inr loadedDrawings \<Rightarrow>
                         Inr (sort_key (\<lambda>d. - getTime rt (updatedAt d)) loadedDrawings))))"

definition loadDrawings :: "Runtime \<Rightarrow> DrawingStorage \<Rightarrow> DrawingStorage" where
  "loadDrawings rt st =
     (let st1 = st\<lparr>isLoading := True, error := None\<rparr>;
          st2 = (case tryLoad rt of
                   Inr ds \<Rightarrow> st1\<lparr>drawings := ds\<rparr>
                 | Inl e \<Rightarrow> st1\<lparr>error := Some ''Erreur lors du chargement des dessins''\<rparr>)
      in st2\<lparr>isLoading := False\<rparr>)"

definition initialStorage :: DrawingStorage where
  "initialStorage = \<lparr>drawings = [], isLoading = False, error = None\<rparr>"

text \<open>
  The strokes of the document before each gesture of a list: what the gestures put on
  the undo stack, oldest first.
\<close>

fun snapshots :: "gesture list \<Rightarrow> Sketchpad \<Rightarrow> Stroke list list" where
  "snapshots [] s = []"
| "snapshots (g # gs) s = strokes s # snapshots gs (drawStroke g s)"

text \<open>
  The two loops of \<open>findNearestStrokeId\<close> as one loop over the candidates: a step, and
  the pair \<open>(bestId, bestDist)\<close> after all of them.
\<close>

definition scanCandidate ::
  "string option \<times> number \<Rightarrow> string \<times> number \<Rightarrow> string option \<times> number" where
  "scanCandidate best c = (if flt (snd c) (snd best) then (Some (fst c), snd c) else best)"

definition scanAll :: "number \<Rightarrow> (string \<times> number) list \<Rightarrow> string option \<times> number" where
  "scanAll r cs = foldl scanCandidate (None, r) cs"

section \<open>Test data\<close>

definition oneTap :: gesture where
  "oneTap = (''a'', \<lparr>pt_x = Finite 0, pt_y = Finite 0, pressure = Finite 0.5\<rparr>, [])"

definition busySketchpad :: Sketchpad where
  "busySketchpad =
     \<lparr>strokes = [\<lparr>stroke_id = ''a'', points = [\<lparr>pt_x = Finite 0, pt_y = Finite 0, pressure = Finite 0.5\<rparr>],
                   color = ''#000000'', strokeWidth = Finite 5, brushType = Pen, pathData = []\<rparr>],
      undoStack = [[]], redoStack = [[], []],
      currentStroke = Some \<lparr>stroke_id = ''b'', points = [\<lparr>pt_x = Finite 1, pt_y = Finite 1, pressure = Finite 0.5\<rparr>],
                   color = ''#000000'', strokeWidth = Finite 5, brushType = Pen, pathData = []\<rparr>,
      currentTool = Pen, currentColor = ''#000000'', currentWidth = Finite 5,
      selection = [''a''], focusedId = None, isDirty = False\<rparr>"

definition tapAndPick :: "Action list" where
  "tapAndPick =
     [StartDrawing ''a'' \<lparr>pt_x = Finite 0, pt_y = Finite 0, pressure = Finite 0.5\<rparr>, EndDrawing,
      ToggleSelection ''a'', ToggleFocused ''a'']"

definition fullHistory :: Sketchpad where
  "fullHistory = initialSketchpad\<lparr>undoStack := replicate 50 [], redoStack := [[]]\<rparr>"

definition dotEast :: Stroke where
  "dotEast = \<lparr>stroke_id = ''a'', points = [\<lparr>pt_x = Finite 3, pt_y = Finite 0, pressure = Finite 0.5\<rparr>],
              color = ''#000000'', strokeWidth = Finite 5, brushType = Pen, pathData = []\<rparr>"

definition dotSouth :: Stroke where
  "dotSouth = \<lparr>stroke_id = ''b'', points = [\<lparr>pt_x = Finite 0, pt_y = Finite 3, pressure = Finite 0.5\<rparr>],
               color = ''#000000'', strokeWidth = Finite 5, brushType = Pen, pathData = []\<rparr>"

definition dotFar :: Stroke where
  "dotFar = \<lparr>stroke_id = ''f'', points = [\<lparr>pt_x = Finite 6, pt_y = Finite 8, pressure = Finite 0.5\<rparr>],
             color = ''#000000'', strokeWidth = Finite 5, brushType = Pen, pathData = []\<rparr>"

definition edgeDot :: Stroke where
  "edgeDot =
     \<lparr>stroke_id = ''e'',
      points = [\<lparr>pt_x = Finite 12, pt_y = Finite (16 - 1 / 2 ^ 49), pressure = Finite 0.5\<rparr>],
      color = ''#000000'', strokeWidth = Finite 5, brushType = Pen, pathData = []\<rparr>"

definition calligraphyPair :: Stroke where
  "calligraphyPair =
     \<lparr>stroke_id = ''c'',
      points = [\<lparr>pt_x = Finite 0, pt_y = Finite 0, pressure = lit 0.2\<rparr>, \<lparr>pt_x = Finite 10, pt_y = Finite 10, pressure = lit 0.4\<rparr>],
      color = ''#000000'', strokeWidth = Finite 10, brushType = Calligraphy,
      pathData = getSvgPathFromPoints
        [\<lparr>pt_x = Finite 0, pt_y = Finite 0, pressure = lit 0.2\<rparr>, \<lparr>pt_x = Finite 10, pt_y = Finite 10, pressure = lit 0.4\<rparr>]\<rparr>"




definition sketchOne :: Drawing where
  "sketchOne = \<lparr>drawing_id = ''a'', drawing_name = ''one'', drawing_strokes = [],
                canvasWidth = Finite 100, canvasHeight = Finite 80, thumbnailSvg = [],
                createdAt = ''2024-01-01'', updatedAt = ''2024-01-02''\<rparr>"

text \<open>
  A store with the index and two records, the second of them cut short, and the same
  store with an index that lists the first record only.
\<close>

definition demoRuntime :: "string \<Rightarrow> Runtime" where
  "demoRuntime indexJson =
     \<lparr>getItem = (\<lambda>key. if key = ''drawings_index'' then Inr (Some indexJson)
                        else if key = ''drawing_a'' then Inr (Some ''{one}'')
                        else if key = ''drawing_b'' then Inr (Some ''{tw'')
                        else Inr None),
      parseIndex = (\<lambda>text. if text = ''[a,b]'' then Inr [''a'', ''b'']
                           else if text = ''[a]'' then Inr [''a'']
                           else Inl SyntaxError),
      parseDrawing = (\<lambda>text. if text = ''{one}'' then Inr sketchOne else Inl SyntaxError),
      getTime = (\<lambda>text. 0)\<rparr>"

section \<open>Properties of the numbers\<close>

lemma roundDouble_eval:
  assumes "x \<noteq> 0" and "exponentOf \<bar>x\<bar> = e" and "twoPow (e - 52) = q"
    and "roundHalfEven (\<bar>x\<bar> / q) = m" and "of_int m * q < 2 ^ 1024"
  shows "roundDouble x = Finite (if x < 0 then - (of_int m * q) else of_int m * q)"
proof -
  have q: "twoPow (exponentOf \<bar>x\<bar> - 52) = q"
    using assms(2,3) by simp
  have m: "roundHalfEven (\<bar>x\<bar> / q) = m"
    by (rule assms(4))
  show ?thesis
    unfolding roundDouble_def Let_def q m using assms(1,5) by simp
qed

lemmas rd_parts = exponentOf_def expUp.simps expDown.simps twoPow_def roundHalfEven_def Let_def

lemma roundHalfEven_near:
  assumes "\<bar>y - of_int m\<bar> < 1 / 2"
  shows "roundHalfEven y = m"
proof (cases "of_int m \<le> y")
  case True
  with assms have "\<lfloor>y\<rfloor> = m" by (intro floor_unique) auto
  with assms True show ?thesis by (auto simp: roundHalfEven_def Let_def)
next
  case False
  with assms have f: "\<lfloor>y\<rfloor> = m - 1" by (intro floor_unique) auto
  have "1 / 2 < y - of_int (m - 1)" using assms False by auto
  with f show ?thesis by (auto simp: roundHalfEven_def Let_def)
qed

lemma flt_irrefl [simp]: "\<not> flt a a"
  by (cases a) simp_all

lemma flt_trans: "flt a b \<Longrightarrow> flt b c \<Longrightarrow> flt a c"
  by (cases a; cases b; cases c) simp_all

lemma flt_NaN [simp]: "\<not> flt NaN b" "\<not> flt a NaN"
  by (cases b, simp_all) (cases a, simp_all)

lemma fle_flt_trans: "fle a b \<Longrightarrow> flt b c \<Longrightarrow> flt a c"
  by (auto simp: fle_def intro: flt_trans)

section \<open>Properties of adjacent pairs\<close>

lemma length_adjacentPairs: "length (adjacentPairs xs) = length xs - 1"
  by (simp add: adjacentPairs_def)

lemma nth_adjacentPairs:
  "i < length xs - 1 \<Longrightarrow> adjacentPairs xs ! i = (xs ! i, xs ! Suc i)"
  by (simp add: adjacentPairs_def nth_butlast nth_tl)

section \<open>Properties of the document store\<close>

subsection \<open>The undo stack is capped\<close>

lemma undoStack_saveStateToUndo:
  "undoStack (saveStateToUndo cs s) = sliceLast 50 (undoStack s @ [cs])"
  by (simp add: saveStateToUndo_def markDirty_def)

lemma redoStack_saveStateToUndo: "redoStack (saveStateToUndo cs s) = []"
  by (simp add: saveStateToUndo_def markDirty_def)

text \<open>
  C3. Whatever the undo stack holds before, it holds at most 50 entries right after
  \<open>saveStateToUndo\<close>: the stack is the old one with the new snapshot on top, cut from the
  bottom, so the oldest entries are the ones that go.
\<close>

theorem C3_saveStateToUndo_cap:
  "length (undoStack (saveStateToUndo snapshot s)) \<le> 50
   \<and> length (undoStack (saveStateToUndo snapshot s)) = min 50 (length (undoStack s) + 1)
   \<and> undoStack (saveStateToUndo snapshot s)
       = drop (length (undoStack s) + 1 - 50) (undoStack s @ [snapshot])
   \<and> last (undoStack (saveStateToUndo snapshot s)) = snapshot"
proof -
  have "length (undoStack s) - (length (undoStack s) - 49) = min 49 (length (undoStack s))"
    by arith
  then show ?thesis
    by (simp add: undoStack_saveStateToUndo sliceLast_def)
qed

text \<open>A stack of 60 entries, as no sequence of operations builds, is cut to 50 as well.\<close>

theorem C3_witness:
  "length (undoStack (saveStateToUndo [] (initialSketchpad\<lparr>undoStack := replicate 60 []\<rparr>))) = 50"
  using C3_saveStateToUndo_cap[of "[]" "initialSketchpad\<lparr>undoStack := replicate 60 []\<rparr>"]
  by (simp add: initialSketchpad_def)

subsection \<open>The redo stack after a mutation\<close>

text \<open>
  After one stroke is drawn and undone the document is empty, nothing is selected and the
  redo stack holds one entry: \<open>clear\<close> and \<open>deleteSelected\<close> then return at their guard and
  the entry stays.
\<close>

theorem C2_counterexample:
  "redoStack (clear (undo (drawStroke oneTap initialSketchpad))) \<noteq> []
   \<and> redoStack (deleteSelected (undo (drawStroke oneTap initialSketchpad))) \<noteq> []"
  by (simp add: oneTap_def drawStroke_def startDrawing_def endDrawing_def initialSketchpad_def
      undo_def saveStateToUndo_def markDirty_def sliceLast_def clear_def deleteSelected_def)

text \<open>
  C2, amended. \<open>removeStroke\<close> always empties the redo stack; so does \<open>endDrawing\<close> when a
  stroke of at least one point is in progress, \<open>clear\<close> on a document that has strokes and
  \<open>deleteSelected\<close> on a selection that is not empty. On an empty document \<open>clear\<close> changes
  nothing, and on an empty selection \<open>deleteSelected\<close> changes nothing: the redo stack is
  then what it was.
\<close>

theorem C2_future_cleared:
  "redoStack (removeStroke i s) = []
   \<and> (currentStroke s = Some prev \<and> points prev \<noteq> [] \<longrightarrow> redoStack (endDrawing s) = [])
   \<and> (strokes s \<noteq> [] \<longrightarrow> redoStack (clear s) = [])
   \<and> (selection s \<noteq> [] \<longrightarrow> redoStack (deleteSelected s) = [])
   \<and> (strokes s = [] \<longrightarrow> clear s = s)
   \<and> (selection s = [] \<longrightarrow> deleteSelected s = s)"
  by (simp add: removeStroke_def endDrawing_def clear_def deleteSelected_def
      redoStack_saveStateToUndo)

theorem C2_witness:
  "redoStack busySketchpad \<noteq> []
   \<and> redoStack (removeStroke ''a'' busySketchpad) = []
   \<and> redoStack (endDrawing busySketchpad) = []
   \<and> redoStack (clear busySketchpad) = []
   \<and> redoStack (deleteSelected busySketchpad) = []
   \<and> clear initialSketchpad = initialSketchpad
   \<and> deleteSelected initialSketchpad = initialSketchpad"
  using C2_future_cleared[of "''a''" busySketchpad
          "\<lparr>stroke_id = ''b'',
            points = [\<lparr>pt_x = Finite 1, pt_y = Finite 1, pressure = Finite 0.5\<rparr>],
            color = ''#000000'', strokeWidth = Finite 5, brushType = Pen, pathData = []\<rparr>"]
        C2_future_cleared[of "''a''" initialSketchpad "hd (strokes busySketchpad)"]
  by (simp add: busySketchpad_def initialSketchpad_def)

subsection \<open>Selection and focus name strokes of the document\<close>

text \<open>
  \<open>toggleFocused\<close> and \<open>toggleSelection\<close> take any identifier and do not look it up:
  on the fresh, empty document each of them leaves a reference to a stroke that is not
  there.
\<close>

theorem C5_counterexample:
  "\<not> referencesValid (run [ToggleFocused ''ghost''])
   \<and> \<not> referencesValid (run [ToggleSelection ''ghost''])"
  by (simp add: run_def exec_def referencesValid_def strokeIds_def toggleFocused_def
      toggleSelection_def initialSketchpad_def)

lemma strokeIds_saveStateToUndo [simp]: "strokeIds (saveStateToUndo cs s) = strokeIds s"
  by (simp add: strokeIds_def saveStateToUndo_def markDirty_def)

lemma perform_referencesValid:
  "referencesValid s \<Longrightarrow> addresses a s \<Longrightarrow> referencesValid (perform a s)"
proof (cases a)
  case (RemoveStroke i)
  assume "referencesValid s"
  then show ?thesis using RemoveStroke
    by (auto simp: referencesValid_def strokeIds_def removeStroke_def saveStateToUndo_def
        markDirty_def split: option.splits)
next
  case (ToggleSelection i)
  assume "referencesValid s" "addresses a s"
  then show ?thesis using ToggleSelection
    by (auto simp: referencesValid_def strokeIds_def toggleSelection_def split: option.splits)
next
  case (ToggleFocused i)
  assume "referencesValid s" "addresses a s"
  then show ?thesis using ToggleFocused
    by (auto simp: referencesValid_def strokeIds_def toggleFocused_def split: option.splits)
next
  case EndDrawing
  assume "referencesValid s"
  then show ?thesis using EndDrawing
    by (auto simp: referencesValid_def strokeIds_def endDrawing_def saveStateToUndo_def
        markDirty_def split: option.splits)
qed (auto simp: referencesValid_def strokeIds_def loadStrokes_def startDrawing_def
      continueDrawing_def undo_def redo_def clear_def clearSelection_def selectAll_def
      deleteSelected_def selectByRect_def setCurrentTool_def setCurrentColor_def
      setCurrentWidth_def markClean_def markDirty_def saveStateToUndo_def Let_def
      split: option.splits)

lemma exec_referencesValid:
  "referencesValid s \<Longrightarrow> wellAddressed acts s \<Longrightarrow> referencesValid (exec acts s)"
proof (induction acts arbitrary: s)
  case Nil
  then show ?case by (simp add: exec_def)
next
  case (Cons a acts)
  from Cons.prems have "referencesValid (perform a s)" "wellAddressed acts (perform a s)"
    by (simp_all add: perform_referencesValid)
  then have "referencesValid (exec acts (perform a s))" by (rule Cons.IH)
  then show ?case by (simp add: exec_def)
qed

text \<open>
  C5, amended. From the initial document, every sequence of operations in which
  \<open>toggleSelection\<close> and \<open>toggleFocused\<close> are called with the identifier of a stroke that
  is in the document at the time of the call leads to a state where every selected
  identifier and the focused identifier, when there is one, are identifiers of strokes of
  the document.
\<close>

theorem C5_references_valid:
  "wellAddressed acts initialSketchpad \<Longrightarrow> referencesValid (run acts)"
  unfolding run_def
  by (rule exec_referencesValid) (simp_all add: referencesValid_def initialSketchpad_def)

lemmas op_defs = run_def exec_def startDrawing_def endDrawing_def toggleSelection_def
  toggleFocused_def saveStateToUndo_def markDirty_def sliceLast_def strokeIds_def
  initialSketchpad_def getSvgPathFromPoints_def

theorem C5_witness:
  "wellAddressed tapAndPick initialSketchpad
   \<and> selection (run tapAndPick) = [''a'']
   \<and> focusedId (run tapAndPick) = Some ''a''
   \<and> referencesValid (run tapAndPick)"
proof -
  have w: "wellAddressed tapAndPick initialSketchpad"
    by (simp add: tapAndPick_def op_defs)
  have "selection (run tapAndPick) = [''a'']" "focusedId (run tapAndPick) = Some ''a''"
    by (simp_all add: tapAndPick_def op_defs)
  with w C5_references_valid[OF w] show ?thesis by simp
qed

subsection \<open>Commits followed by as many undos\<close>

lemma continue_fold:
  "currentStroke t = Some st \<Longrightarrow> points st \<noteq> [] \<Longrightarrow>
   \<exists>st'. currentStroke (foldl (\<lambda>u q. continueDrawing q u) t ps) = Some st' \<and> points st' \<noteq> []
     \<and> foldl (\<lambda>u q. continueDrawing q u) t ps = t\<lparr>currentStroke := Some st'\<rparr>"
proof (induction ps arbitrary: t st)
  case Nil
  then show ?case by simp
next
  case (Cons q ps)
  let ?t1 = "continueDrawing q t"
  let ?st1 = "st\<lparr>points := points st @ [q], pathData := getSvgPathFromPoints (points st @ [q])\<rparr>"
  have t1: "?t1 = t\<lparr>currentStroke := Some ?st1\<rparr>"
    using Cons.prems by (simp add: continueDrawing_def)
  have "currentStroke ?t1 = Some ?st1" "points ?st1 \<noteq> []"
    using t1 by simp_all
  from Cons.IH[OF this] obtain st' where
    "currentStroke (foldl (\<lambda>u q. continueDrawing q u) ?t1 ps) = Some st'"
    "points st' \<noteq> []"
    "foldl (\<lambda>u q. continueDrawing q u) ?t1 ps = ?t1\<lparr>currentStroke := Some st'\<rparr>"
    by blast
  then show ?case using t1 by simp
qed

lemma drawStroke_commits:
  assumes "drawingTool s"
  shows "\<exists>st. drawStroke g s =
           (saveStateToUndo (strokes s) s)\<lparr>strokes := strokes s @ [st], currentStroke := None\<rparr>"
proof -
  obtain newId p ps where g: "g = (newId, p, ps)" by (cases g)
  let ?t = "startDrawing newId p s"
  obtain st0 where t: "?t = s\<lparr>currentStroke := Some st0\<rparr>" "points st0 \<noteq> []"
    using assms by (simp add: startDrawing_def drawingTool_def)
  then have "currentStroke ?t = Some st0" by simp
  from continue_fold[OF this t(2), of ps] obtain st' where
    st': "points st' \<noteq> []"
      "foldl (\<lambda>u q. continueDrawing q u) ?t ps = ?t\<lparr>currentStroke := Some st'\<rparr>"
    by blast
  have "drawStroke g s = endDrawing (s\<lparr>currentStroke := Some st'\<rparr>)"
    using g st'(2) t(1) by (simp add: drawStroke_def)
  also have "\<dots> = (saveStateToUndo (strokes s) s)\<lparr>strokes := strokes s @ [st'], currentStroke := None\<rparr>"
    using st'(1) by (simp add: endDrawing_def saveStateToUndo_def markDirty_def)
  finally show ?thesis by blast
qed

lemma drawStroke_tool: "drawingTool s \<Longrightarrow> drawingTool (drawStroke g s)"
  using drawStroke_commits[of s g]
  by (auto simp: drawingTool_def saveStateToUndo_def markDirty_def)

lemma drawStroke_undoStack:
  "drawingTool s \<Longrightarrow> undoStack (drawStroke g s) = sliceLast 50 (undoStack s @ [strokes s])"
  using drawStroke_commits[of s g]
  by (auto simp: saveStateToUndo_def markDirty_def)

lemma drawStroke_strokes:
  "drawingTool s \<Longrightarrow> \<exists>st. strokes (drawStroke g s) = strokes s @ [st]"
  using drawStroke_commits[of s g] by auto

lemma commitAll_Cons: "commitAll (g # gs) s = commitAll gs (drawStroke g s)"
  by (simp add: commitAll_def)

lemma commitAll_snoc: "commitAll (gs @ [g]) s = drawStroke g (commitAll gs s)"
  by (simp add: commitAll_def)

lemma commitAll_tool: "drawingTool s \<Longrightarrow> drawingTool (commitAll gs s)"
  by (induction gs arbitrary: s) (simp_all add: commitAll_def drawStroke_tool)

lemma length_snapshots: "length (snapshots gs s) = length gs"
  by (induction gs arbitrary: s) simp_all

lemma snapshots_snoc: "snapshots (gs @ [g]) s = snapshots gs s @ [strokes (commitAll gs s)]"
  by (induction gs arbitrary: s) (simp_all add: commitAll_def)

lemma commitAll_undoStack:
  "drawingTool s \<Longrightarrow> length gs \<le> 50 \<Longrightarrow>
   \<exists>pre. undoStack (commitAll gs s) = pre @ snapshots gs s"
proof (induction gs rule: rev_induct)
  case Nil
  then show ?case by (simp add: commitAll_def)
next
  case (snoc g gs)
  then obtain pre where pre: "undoStack (commitAll gs s) = pre @ snapshots gs s"
    by auto
  let ?t = "commitAll gs s"
  have "undoStack (commitAll (gs @ [g]) s) = sliceLast 50 (undoStack ?t @ [strokes ?t])"
    using snoc.prems by (simp add: commitAll_snoc drawStroke_undoStack commitAll_tool)
  also have "\<dots> = sliceLast 50 (pre @ snapshots (gs @ [g]) s)"
    by (simp add: pre snapshots_snoc)
  also have "\<dots> = drop (length pre + length gs + 1 - 50) pre @ snapshots (gs @ [g]) s"
    using snoc.prems by (simp add: sliceLast_def length_snapshots)
  finally show ?case by blast
qed

lemma undo_pops:
  "undoStack t = pre @ [y] \<Longrightarrow> strokes (undo t) = y \<and> undoStack (undo t) = pre"
  by (simp add: undo_def markDirty_def)

lemma undo_funpow:
  "undoStack t = pre @ snaps \<Longrightarrow>
   strokes ((undo ^^ length snaps) t) = (case snaps of [] \<Rightarrow> strokes t | x # _ \<Rightarrow> x)
   \<and> undoStack ((undo ^^ length snaps) t) = pre"
proof (induction snaps arbitrary: t rule: rev_induct)
  case Nil
  then show ?case by simp
next
  case (snoc y ys)
  then have u: "strokes (undo t) = y" "undoStack (undo t) = pre @ ys"
    using undo_pops[of t "pre @ ys" y] by simp_all
  have "(undo ^^ length (ys @ [y])) t = (undo ^^ length ys) (undo t)"
    by (simp add: funpow_swap1)
  with snoc.IH[OF u(2)] u(1) show ?case
    by (cases ys) simp_all
qed

text \<open>
  C1, amended. Under a drawing tool, \<open>N \<le> 50\<close> gestures that each commit a stroke,
  followed by \<open>N\<close> calls of \<open>undo\<close>, leave \<open>strokes\<close> as it was before the first gesture,
  whatever the document and its history were.
\<close>

theorem C1_commits_then_undos:
  assumes "drawingTool s" and "length gs \<le> 50"
  shows "strokes ((undo ^^ length gs) (commitAll gs s)) = strokes s"
proof -
  obtain pre where "undoStack (commitAll gs s) = pre @ snapshots gs s"
    using commitAll_undoStack[OF assms] by blast
  from undo_funpow[OF this] show ?thesis
    by (cases gs) (simp_all add: length_snapshots commitAll_def)
qed

lemma undoStack_commit_le:
  "drawingTool s \<Longrightarrow> length (undoStack (drawStroke g s)) \<le> 50"
  by (simp add: drawStroke_undoStack sliceLast_def)

lemma overflow:
  assumes "drawingTool s" and "undoStack s = []" and "length gs = 50"
  shows "strokes ((undo ^^ 51) (commitAll (g # gs) s)) = strokes (drawStroke g s)"
proof -
  let ?s1 = "drawStroke g s"
  let ?t = "commitAll gs ?s1"
  have tool: "drawingTool ?s1" using assms(1) by (rule drawStroke_tool)
  obtain pre where pre: "undoStack ?t = pre @ snapshots gs ?s1"
    using commitAll_undoStack[OF tool, of gs] assms(3) by auto
  obtain g' gs' where gs: "gs = gs' @ [g']"
    using assms(3) by (cases gs rule: rev_cases) auto
  have "length (undoStack ?t) \<le> 50"
    unfolding gs commitAll_snoc
    by (rule undoStack_commit_le) (rule commitAll_tool[OF tool])
  with pre have "pre = []" by (simp add: length_snapshots assms(3))
  with pre have "undoStack ?t = [] @ snapshots gs ?s1" by simp
  from undo_funpow[OF this]
  have *: "strokes ((undo ^^ 50) ?t) = strokes ?s1" "undoStack ((undo ^^ 50) ?t) = []"
    using assms(3) by (cases gs; simp add: length_snapshots)+
  have "(undo ^^ 51) ?t = undo ((undo ^^ 50) ?t)"
    by (simp add: numeral_eq_Suc)
  also have "\<dots> = (undo ^^ 50) ?t"
    using *(2) by (simp add: undo_def)
  finally show ?thesis using *(1) by (simp add: commitAll_Cons)
qed

lemma length_tapGestures: "length (tapGestures k n) = n"
  by (induction n arbitrary: k) simp_all

text \<open>
  With 51 gestures the snapshot of the initial document has left the undo stack: 50
  calls of \<open>undo\<close> empty the stack, the last one does nothing, and the first stroke stays.
\<close>

theorem C1_counterexample:
  "strokes ((undo ^^ 51) (commitAll (tapGestures 0 51) initialSketchpad))
   \<noteq> strokes initialSketchpad"
proof -
  let ?g = "(replicate (Suc 0) (CHR ''s''),
             \<lparr>pt_x = Finite (real (0::nat)), pt_y = Finite 0, pressure = Finite 0.5\<rparr>, [])"
  have "tapGestures 0 (Suc 50) = ?g # tapGestures (Suc 0) 50"
    by (simp only: tapGestures.simps)
  then have split: "tapGestures 0 51 = ?g # tapGestures (Suc 0) 50"
    by simp
  have tool: "drawingTool initialSketchpad"
    by (simp add: drawingTool_def initialSketchpad_def)
  have "strokes ((undo ^^ 51) (commitAll (?g # tapGestures (Suc 0) 50) initialSketchpad))
        = strokes (drawStroke ?g initialSketchpad)"
    by (rule overflow[OF tool]) (simp_all add: initialSketchpad_def length_tapGestures)
  moreover obtain st where "strokes (drawStroke ?g initialSketchpad) = strokes initialSketchpad @ [st]"
    using drawStroke_strokes[OF tool] by blast
  ultimately show ?thesis unfolding split by simp
qed

theorem C1_witness:
  "drawingTool initialSketchpad \<and> length (tapGestures 0 50) \<le> 50
   \<and> strokes ((undo ^^ 50) (commitAll (tapGestures 0 50) initialSketchpad)) = []"
proof -
  have tool: "drawingTool initialSketchpad"
    by (simp add: drawingTool_def initialSketchpad_def)
  have len: "length (tapGestures 0 50) \<le> 50" by (simp add: length_tapGestures)
  from C1_commits_then_undos[OF tool len] tool len show ?thesis
    by (simp add: length_tapGestures initialSketchpad_def)
qed

subsection \<open>Loading a stroke list\<close>

text \<open>
  C10. \<open>loadStrokes\<close> replaces the committed strokes by the list it is given and resets
  the rest of the document: both history stacks are empty, so neither undo nor redo is
  available, the selection is empty, no stroke is focused and no stroke is in progress.
\<close>

theorem C10_loadStrokes_resets:
  "strokes (loadStrokes newStrokes s) = newStrokes
   \<and> undoStack (loadStrokes newStrokes s) = []
   \<and> redoStack (loadStrokes newStrokes s) = []
   \<and> \<not> canUndo (loadStrokes newStrokes s)
   \<and> \<not> canRedo (loadStrokes newStrokes s)
   \<and> undo (loadStrokes newStrokes s) = loadStrokes newStrokes s
   \<and> redo (loadStrokes newStrokes s) = loadStrokes newStrokes s
   \<and> selection (loadStrokes newStrokes s) = []
   \<and> focusedId (loadStrokes newStrokes s) = None
   \<and> currentStroke (loadStrokes newStrokes s) = None"
  by (simp add: loadStrokes_def canUndo_def canRedo_def undo_def redo_def)

subsection \<open>The size of the undo stack\<close>

lemmas batch_defs = handleEvent_def settle.simps renderPass_def hookOrder_def processCell_def
  recordUpdates_def

text \<open>An event that makes one call does what the callback does as a transition.\<close>

lemma handleEvent_single: "handleEvent [a] s = Some (perform a s)"
proof (cases a)
  case (LoadStrokes x)
  then show ?thesis by (simp add: batch_defs loadStrokes_def)
next
  case (StartDrawing i p)
  then show ?thesis by (simp add: batch_defs startDrawing_def)
next
  case (ContinueDrawing p)
  then show ?thesis
    by (cases "currentStroke s") (simp_all add: batch_defs continueDrawing_def)
next
  case EndDrawing
  show ?thesis
  proof (cases "currentStroke s")
    case None
    then show ?thesis unfolding EndDrawing by (simp add: batch_defs endDrawing_def)
  next
    case (Some prev)
    then show ?thesis unfolding EndDrawing
      by (cases "points prev = []")
         (simp_all add: batch_defs endDrawing_def saveStateToUndo_def markDirty_def)
  qed
next
  case Undo
  show ?thesis unfolding Undo
    by (cases "undoStack s = []") (simp_all add: batch_defs undo_def markDirty_def)
next
  case Redo
  show ?thesis unfolding Redo
    by (cases "redoStack s = []") (simp_all add: batch_defs redo_def markDirty_def)
next
  case Clear
  show ?thesis unfolding Clear
    by (cases "strokes s = []")
       (simp_all add: batch_defs clear_def saveStateToUndo_def markDirty_def)
next
  case (RemoveStroke i)
  then show ?thesis
    by (simp add: batch_defs removeStroke_def saveStateToUndo_def markDirty_def)
next
  case (ToggleSelection i)
  then show ?thesis by (simp add: batch_defs toggleSelection_def)
next
  case (ToggleFocused i)
  then show ?thesis by (simp add: batch_defs toggleFocused_def)
next
  case ClearSelection
  then show ?thesis by (simp add: batch_defs clearSelection_def)
next
  case SelectAll
  then show ?thesis by (simp add: batch_defs selectAll_def)
next
  case DeleteSelected
  show ?thesis unfolding DeleteSelected
    by (cases "selection s = []")
       (simp_all add: batch_defs deleteSelected_def saveStateToUndo_def markDirty_def)
next
  case (SelectByRect r)
  then show ?thesis by (simp add: batch_defs selectByRect_def Let_def)
next
  case (SetCurrentTool t)
  then show ?thesis by (simp add: batch_defs setCurrentTool_def)
next
  case (SetCurrentColor c)
  then show ?thesis by (simp add: batch_defs setCurrentColor_def)
next
  case (SetCurrentWidth w)
  then show ?thesis by (simp add: batch_defs setCurrentWidth_def)
next
  case MarkClean
  then show ?thesis by (simp add: batch_defs markClean_def)
qed

lemma runEvents_singles: "runEvents (map (\<lambda>a. [a]) acts) s = Some (exec acts s)"
  by (induction acts arbitrary: s) (simp_all add: exec_def handleEvent_single)

lemma runEvents_append:
  "runEvents (es @ es') s
   = (case runEvents es s of None \<Rightarrow> None | Some s' \<Rightarrow> runEvents es' s')"
  by (induction es arbitrary: s) (simp_all split: option.splits)

lemma exec_append: "exec (acts @ acts') s = exec acts' (exec acts s)"
  by (simp add: exec_def)

lemma exec_gestureCalls: "exec (gestureCalls g) s = drawStroke g s"
proof -
  obtain newId p ps where g: "g = (newId, p, ps)" by (cases g)
  have "foldl (\<lambda>st a. perform a st) t (map ContinueDrawing ps)
        = foldl (\<lambda>st q. continueDrawing q st) t ps" for t
    by (induction ps arbitrary: t) simp_all
  then show ?thesis
    by (simp add: g gestureCalls_def exec_def drawStroke_def)
qed

lemma exec_gestures: "exec (concat (map gestureCalls gs)) s = commitAll gs s"
  by (induction gs arbitrary: s)
     (simp_all add: exec_append exec_gestureCalls commitAll_Cons, simp add: exec_def commitAll_def)

lemma fifty_commits_fill:
  assumes "drawingTool s" and "length gs = 50"
  shows "length (undoStack (commitAll gs s)) = 50"
proof -
  obtain pre where pre: "undoStack (commitAll gs s) = pre @ snapshots gs s"
    using commitAll_undoStack[OF assms(1), of gs] assms(2) by auto
  obtain g' gs' where gs: "gs = gs' @ [g']"
    using assms(2) by (cases gs rule: rev_cases) auto
  have "length (undoStack (commitAll gs s)) \<le> 50"
    unfolding gs commitAll_snoc
    by (rule undoStack_commit_le) (rule commitAll_tool[OF assms(1)])
  moreover have "50 \<le> length (undoStack (commitAll gs s))"
    by (simp add: pre length_snapshots assms(2))
  ultimately show ?thesis by simp
qed

text \<open>
  One event calls \<open>undo\<close> and then \<open>removeStroke\<close>. The reset of the redo stack that
  \<open>removeStroke\<close> queues comes before the push that the function of \<open>undo\<close> queues when
  it runs: the redo stack is left with one entry, and the undo stack is filled again.
\<close>

lemma undo_and_erase:
  assumes "undoStack s \<noteq> []"
  shows "\<exists>s'. handleEvent [Undo, RemoveStroke i] s = Some s'
              \<and> undoStack s' = sliceLast 50 (butlast (undoStack s) @ [strokes s])
              \<and> redoStack s' = [strokes s]"
  using assms by (simp add: batch_defs)

lemma recolour_undo_and_erase:
  assumes "undoStack s \<noteq> []"
  shows "\<exists>s'. handleEvent [SetCurrentColor c, Undo, RemoveStroke i] s = Some s'
              \<and> undoStack s' = sliceLast 50 (butlast (undoStack s) @ [strokes s])
              \<and> redoStack s' = [strokes s]"
  using assms by (simp add: batch_defs)

lemma overCap_after:
  assumes "\<And>s. undoStack s \<noteq> [] \<Longrightarrow>
             \<exists>s'. handleEvent calls s = Some s'
                  \<and> undoStack s' = sliceLast 50 (butlast (undoStack s) @ [strokes s])
                  \<and> redoStack s' = [strokes s]"
  shows "\<exists>s'. runEvents (map (\<lambda>a. [a]) (concat (map gestureCalls (tapGestures 0 50)))
                        @ [calls, [Redo]]) initialSketchpad = Some s'
              \<and> length (undoStack s') = 51"
proof -
  let ?t = "commitAll (tapGestures 0 50) initialSketchpad"
  have tool: "drawingTool initialSketchpad"
    by (simp add: drawingTool_def initialSketchpad_def)
  have full: "length (undoStack ?t) = 50"
    by (rule fifty_commits_fill[OF tool]) (simp add: length_tapGestures)
  then have "undoStack ?t \<noteq> []" by auto
  from assms[OF this] obtain t1 where t1:
    "handleEvent calls ?t = Some t1"
    "undoStack t1 = sliceLast 50 (butlast (undoStack ?t) @ [strokes ?t])"
    "redoStack t1 = [strokes ?t]"
    by blast
  have len1: "length (undoStack t1) = 50"
    using full by (simp add: t1(2) sliceLast_def)
  have "runEvents (map (\<lambda>a. [a]) (concat (map gestureCalls (tapGestures 0 50)))
                   @ [calls, [Redo]]) initialSketchpad = Some (redo t1)"
    by (simp add: runEvents_append runEvents_singles exec_gestures t1(1) handleEvent_single)
  moreover have "length (undoStack (redo t1)) = 51"
    using len1 t1(3) by (simp add: redo_def markDirty_def)
  ultimately show ?thesis by blast
qed

lemma overCap_run:
  "\<exists>s'. runEvents overCapEvents initialSketchpad = Some s' \<and> length (undoStack s') = 51"
  unfolding overCapEvents_def by (rule overCap_after) (rule undo_and_erase)

lemma overCapPending_run:
  "\<exists>s'. runEvents overCapEventsPending initialSketchpad = Some s'
        \<and> length (undoStack s') = 51"
  unfolding overCapEventsPending_def by (rule overCap_after) (rule recolour_undo_and_erase)

text \<open>
  C4. \<open>redo\<close> pushes the strokes of the document on the undo stack and applies no cap
  there. So the undo stack can hold more than 50 entries: there are events, from the
  initial state, after which it does.
\<close>

theorem C4_redo_exceeds_cap:
  "(redoStack s \<noteq> [] \<longrightarrow>
      undoStack (redo s) = undoStack s @ [strokes s]
      \<and> handleEvent [Redo] s = Some (redo s))
   \<and> (\<exists>events s'. runEvents events initialSketchpad = Some s' \<and> 50 < length (undoStack s'))"
proof -
  obtain s' where "runEvents overCapEvents initialSketchpad = Some s'"
    "length (undoStack s') = 51"
    using overCap_run by blast
  then have "\<exists>events s'. runEvents events initialSketchpad = Some s'
                \<and> 50 < length (undoStack s')"
    by (intro exI[of _ overCapEvents] exI[of _ s']) simp
  then show ?thesis
    by (simp add: redo_def markDirty_def handleEvent_single)
qed

text \<open>
  On a state with 50 entries on the undo stack and one to redo \<open>redo\<close> leaves 51
  entries; fifty strokes, an event that undoes and erases, and a redo lead to such a
  state and beyond the cap, also when the event changes the colour first.
\<close>

theorem C4_witness:
  "redoStack fullHistory \<noteq> []
   \<and> length (undoStack fullHistory) = 50
   \<and> length (undoStack (redo fullHistory)) = 51
   \<and> (\<exists>s'. runEvents overCapEvents initialSketchpad = Some s' \<and> length (undoStack s') = 51)
   \<and> (\<exists>s'. runEvents overCapEventsPending initialSketchpad = Some s'
          \<and> length (undoStack s') = 51)"
  using C4_redo_exceeds_cap[of fullHistory] overCap_run overCapPending_run
  by (simp add: fullHistory_def initialSketchpad_def)

section \<open>Properties of hit testing\<close>

lemma pointDistance_roundedEuclid:
  "pointDistance x y pt = roundedEuclid x y (pt_x pt) (pt_y pt)"
  by (simp add: pointDistance_def roundedEuclid_def fsquare_def)

lemma scan_points:
  "foldl (scanPoint x y owner) best pts
   = foldl scanCandidate best
       (map (\<lambda>pt. (owner, roundedEuclid x y (pt_x pt) (pt_y pt))) pts)"
  by (induction pts arbitrary: best)
     (simp_all add: scanPoint_def scanCandidate_def Let_def pointDistance_roundedEuclid)

lemma scan_strokes:
  "foldl (\<lambda>best stroke. foldl (scanPoint x y (stroke_id stroke)) best (points stroke)) best strks
   = foldl scanCandidate best (candidates x y strks)"
  by (induction strks arbitrary: best) (simp_all add: candidates_def scan_points)

lemma findNearestStrokeId_scanAll:
  "findNearestStrokeId x y strks radius = fst (scanAll radius (candidates x y strks))"
  by (simp add: findNearestStrokeId_def scan_strokes scanAll_def)

lemma scanAll_snoc: "scanAll r (cs @ [c]) = scanCandidate (scanAll r cs) c"
  by (simp add: scanAll_def)

lemma scanAll_None: "fst (scanAll r cs) = None \<Longrightarrow> snd (scanAll r cs) = r"
  by (induction cs rule: rev_induct)
     (simp_all add: scanAll_snoc scanCandidate_def scanAll_def split: if_splits)

lemma scanAll_lower: "j < length cs \<Longrightarrow> \<not> flt (snd (cs ! j)) (snd (scanAll r cs))"
proof (induction cs arbitrary: j rule: rev_induct)
  case Nil
  then show ?case by simp
next
  case (snoc c cs)
  let ?b = "scanAll r cs"
  show ?case
  proof (cases "flt (snd c) (snd ?b)")
    case True
    then have new: "snd (scanAll r (cs @ [c])) = snd c"
      by (simp add: scanAll_snoc scanCandidate_def)
    show ?thesis
    proof (cases "j < length cs")
      case j: True
      then have "\<not> flt (snd (cs ! j)) (snd ?b)" by (rule snoc.IH)
      with True have "\<not> flt (snd (cs ! j)) (snd c)" using flt_trans by blast
      with j show ?thesis by (simp add: new nth_append)
    next
      case False
      with snoc.prems have "j = length cs" by simp
      then show ?thesis by (simp add: new)
    qed
  next
    case False
    then have same: "scanAll r (cs @ [c]) = ?b"
      by (simp add: scanAll_snoc scanCandidate_def)
    show ?thesis
    proof (cases "j < length cs")
      case j: True
      then have "\<not> flt (snd (cs ! j)) (snd ?b)" by (rule snoc.IH)
      with j show ?thesis by (simp add: same nth_append)
    next
      case j: False
      with snoc.prems have "j = length cs" by simp
      with False show ?thesis by (simp add: same)
    qed
  qed
qed

lemma scanAll_Some:
  "fst (scanAll r cs) = Some i \<Longrightarrow>
   flt (snd (scanAll r cs)) r
   \<and> (\<exists>k < length cs. cs ! k = (i, snd (scanAll r cs))
                      \<and> (\<forall>j < k. \<not> fle (snd (cs ! j)) (snd (scanAll r cs))))"
proof (induction cs arbitrary: i rule: rev_induct)
  case Nil
  then show ?case by (simp add: scanAll_def)
next
  case (snoc c cs)
  let ?b = "scanAll r cs"
  show ?case
  proof (cases "flt (snd c) (snd ?b)")
    case True
    then have new: "scanAll r (cs @ [c]) = (Some (fst c), snd c)"
      by (simp add: scanAll_snoc scanCandidate_def)
    with snoc.prems have i: "i = fst c" by simp
    have "flt (snd ?b) r \<or> snd ?b = r"
    proof (cases "fst ?b")
      case None
      then show ?thesis by (simp add: scanAll_None)
    next
      case (Some i')
      then show ?thesis using snoc.IH by blast
    qed
    with True have below: "flt (snd c) r" by (auto intro: flt_trans)
    have here: "(cs @ [c]) ! length cs = (i, snd c)" using i by simp
    have before: "\<forall>j < length cs. \<not> fle (snd ((cs @ [c]) ! j)) (snd c)"
    proof (intro allI impI)
      fix j assume j: "j < length cs"
      then have "\<not> flt (snd (cs ! j)) (snd ?b)" by (rule scanAll_lower)
      with True have "\<not> fle (snd (cs ! j)) (snd c)" using fle_flt_trans by blast
      with j show "\<not> fle (snd ((cs @ [c]) ! j)) (snd c)" by (simp add: nth_append)
    qed
    have "flt (snd c) r \<and> (\<exists>k < length (cs @ [c]). (cs @ [c]) ! k = (i, snd c)
                      \<and> (\<forall>j < k. \<not> fle (snd ((cs @ [c]) ! j)) (snd c)))"
      using below here before by (intro conjI exI[of _ "length cs"]) simp_all
    then show ?thesis by (simp only: new snd_conv)
  next
    case False
    then have same: "scanAll r (cs @ [c]) = ?b"
      by (simp add: scanAll_snoc scanCandidate_def)
    with snoc.prems have "fst ?b = Some i" by simp
    from snoc.IH[OF this] obtain k where k: "flt (snd ?b) r" "k < length cs"
      "cs ! k = (i, snd ?b)" "\<forall>j < k. \<not> fle (snd (cs ! j)) (snd ?b)"
      by blast
    have "(cs @ [c]) ! k = (i, snd ?b)" using k(2,3) by (simp add: nth_append)
    moreover have "\<forall>j < k. \<not> fle (snd ((cs @ [c]) ! j)) (snd ?b)"
      using k(2,4) by (simp add: nth_append)
    moreover have "k < length (cs @ [c])" using k(2) by simp
    ultimately have "flt (snd ?b) r \<and> (\<exists>k < length (cs @ [c]). (cs @ [c]) ! k = (i, snd ?b)
                      \<and> (\<forall>j < k. \<not> fle (snd ((cs @ [c]) ! j)) (snd ?b)))"
      using k(1) by blast
    then show ?thesis by (simp only: same)
  qed
qed

text \<open>
  Take a stroke with one point at \<open>(12, 15.999999999999998)\<close>, that is
  \<open>(12, 16 - 2 ^ - 49)\<close>, and the radius 20 around the origin. The point lies inside the
  circle. In double precision the square of its second coordinate is \<open>256 - 2 ^ - 44\<close>,
  the sum of the squares is \<open>400 - 2 ^ - 44\<close> and the root of that rounds to 20, which is
  not below the radius.
\<close>

lemma roundDouble_0: "roundDouble 0 = Finite 0"
  by (simp add: roundDouble_def)

lemma edge_dx: "fsub (Finite 12) (Finite 0) = Finite 12"
  using roundDouble_eval[where x = 12 and e = 3 and q = "1 / 2 ^ 49" and m = "12 * 2 ^ 49"]
  by (simp add: fsub_def rd_parts)

lemma edge_dy: "fsub (Finite (16 - 1 / 2 ^ 49)) (Finite 0) = Finite (16 - 1 / 2 ^ 49)"
  using roundDouble_eval[where x = "16 - 1 / 2 ^ 49" and e = 3 and q = "1 / 2 ^ 49"
          and m = "2 ^ 53 - 1"]
  by (simp add: fsub_def rd_parts)

lemma edge_dx2: "fsquare (Finite 12) = Finite 144"
  using roundDouble_eval[where x = 144 and e = 7 and q = "1 / 2 ^ 45" and m = "144 * 2 ^ 45"]
  by (simp add: fsquare_def fmul_def rd_parts)

lemma edge_dy2: "fsquare (Finite (16 - 1 / 2 ^ 49)) = Finite (256 - 1 / 2 ^ 44)"
  using roundDouble_eval[where x = "(16 - 1 / 2 ^ 49) * (16 - 1 / 2 ^ 49)" and e = 7
          and q = "1 / 2 ^ 45" and m = "2 ^ 53 - 2"]
  by (simp add: fsquare_def fmul_def rd_parts)

lemma edge_sum: "fadd (Finite 144) (Finite (256 - 1 / 2 ^ 44)) = Finite (400 - 1 / 2 ^ 44)"
  using roundDouble_eval[where x = "144 + (256 - 1 / 2 ^ 44)" and e = 8
          and q = "1 / 2 ^ 44" and m = "400 * 2 ^ 44 - 1"]
  by (simp add: rd_parts)

lemma edge_root: "fsqrt (Finite (400 - 1 / 2 ^ 44)) = Finite 20"
proof -
  let ?a = "sqrt (400 - 1 / 2 ^ 44)"
  have lo: "20 - 1 / 2 ^ 49 < ?a"
    by (rule real_less_rsqrt) (simp add: power2_eq_square)
  have hi: "?a < 20"
    by (rule real_less_lsqrt) simp_all
  have pos: "\<bar>?a\<bar> = ?a" using lo by simp
  have e: "exponentOf \<bar>?a\<bar> = 4"
    unfolding pos using lo hi by (simp add: exponentOf_def expUp.simps)
  have q: "twoPow (4 - 52) = 1 / 2 ^ 48"
    by (simp add: twoPow_def)
  have m: "roundHalfEven (\<bar>?a\<bar> / (1 / 2 ^ 48)) = 20 * 2 ^ 48"
    unfolding pos using lo hi by (intro roundHalfEven_near) (simp add: abs_if field_simps)
  have "roundDouble ?a = Finite (if ?a < 0 then - (of_int (20 * 2 ^ 48) * (1 / 2 ^ 48))
                                 else of_int (20 * 2 ^ 48) * (1 / 2 ^ 48))"
    using lo by (intro roundDouble_eval[OF _ e q m]) simp_all
  with lo show ?thesis by (simp add: fsqrt_def)
qed

theorem C7_counterexample:
  "findNearestStrokeId (Finite 0) (Finite 0) [edgeDot] (Finite 20) = None
   \<and> sqrt ((12 - 0)\<^sup>2 + ((16 - 1 / 2 ^ 49) - 0)\<^sup>2) < (20 :: real)"
proof -
  have "pointDistance (Finite 0) (Finite 0)
          \<lparr>pt_x = Finite 12, pt_y = Finite (16 - 1 / 2 ^ 49), pressure = Finite 0.5\<rparr>
        = Finite 20"
    unfolding pointDistance_def Point.select_convs edge_dx edge_dy edge_dx2 edge_dy2 edge_sum
      edge_root
    by (rule refl)
  then have "findNearestStrokeId (Finite 0) (Finite 0) [edgeDot] (Finite 20) = None"
    by (simp add: findNearestStrokeId_def scanPoint_def edgeDot_def Let_def)
  moreover have "sqrt ((12 - 0)\<^sup>2 + ((16 - 1 / 2 ^ 49) - 0)\<^sup>2) < (20 :: real)"
    by (rule real_less_lsqrt) (simp_all add: power2_eq_square)
  ultimately show ?thesis by simp
qed

lemma nearest_by_candidates:
  "(findNearestStrokeId x y strks radius = None
      \<longleftrightarrow> (\<forall>c \<in> set (candidates x y strks). \<not> flt (snd c) radius))
   \<and> (\<forall>i. findNearestStrokeId x y strks radius = Some i \<longrightarrow>
        (\<exists>k < length (candidates x y strks).
            fst (candidates x y strks ! k) = i
            \<and> flt (snd (candidates x y strks ! k)) radius
            \<and> (\<forall>j < length (candidates x y strks).
                  \<not> flt (snd (candidates x y strks ! j)) (snd (candidates x y strks ! k)))
            \<and> (\<forall>j < k. \<not> fle (snd (candidates x y strks ! j))
                              (snd (candidates x y strks ! k)))))"
proof -
  let ?cs = "candidates x y strks"
  let ?b = "scanAll radius ?cs"
  have res: "findNearestStrokeId x y strks radius = fst ?b"
    by (rule findNearestStrokeId_scanAll)
  have some: "\<exists>k < length ?cs. fst (?cs ! k) = i \<and> flt (snd (?cs ! k)) radius
            \<and> (\<forall>j < length ?cs. \<not> flt (snd (?cs ! j)) (snd (?cs ! k)))
            \<and> (\<forall>j < k. \<not> fle (snd (?cs ! j)) (snd (?cs ! k)))" if "fst ?b = Some i" for i
  proof -
    from scanAll_Some[OF that] obtain k where k: "flt (snd ?b) radius" "k < length ?cs"
      "?cs ! k = (i, snd ?b)" "\<forall>j < k. \<not> fle (snd (?cs ! j)) (snd ?b)"
      by blast
    have "\<forall>j < length ?cs. \<not> flt (snd (?cs ! j)) (snd ?b)"
      by (simp add: scanAll_lower)
    with k show ?thesis by (intro exI[of _ k]) simp
  qed
  have none1: "\<forall>c \<in> set ?cs. \<not> flt (snd c) radius" if n: "fst ?b = None"
  proof
    fix c assume "c \<in> set ?cs"
    then obtain j where "j < length ?cs" "?cs ! j = c" by (auto simp: in_set_conv_nth)
    then have "\<not> flt (snd c) (snd ?b)" using scanAll_lower[of j ?cs radius] by simp
    with scanAll_None[OF n] show "\<not> flt (snd c) radius" by simp
  qed
  have none2: "fst ?b = None" if a: "\<forall>c \<in> set ?cs. \<not> flt (snd c) radius"
  proof (cases "fst ?b")
    case None
    then show ?thesis .
  next
    case (Some i)
    from some[OF this] obtain k where "k < length ?cs" "flt (snd (?cs ! k)) radius" by blast
    with a show ?thesis using nth_mem by blast
  qed
  show ?thesis
    unfolding res using some none1 none2 by blast
qed

text \<open>
  C7, amended. \<open>findNearestStrokeId\<close> looks at every point of every stroke and measures
  it by the Euclidean formula \<open>sqrt ((px - x)\<^sup>2 + (py - y)\<^sup>2)\<close> evaluated in double
  precision, every operation rounded. It returns no stroke exactly when no point
  measures below the radius. When it returns a stroke, that stroke owns a point that
  measures below the radius, no point of any stroke measures below it, and no point
  scanned before it, in document order, measures the same or less: of two strokes at the
  same smallest measure the first one wins.
\<close>

theorem C7_findNearestStrokeId:
  "(findNearestStrokeId x y strks radius = None
      \<longleftrightarrow> (\<forall>stroke \<in> set strks. \<forall>pt \<in> set (points stroke).
             \<not> flt (fsqrt (fadd (fmul (fsub (pt_x pt) x) (fsub (pt_x pt) x))
                               (fmul (fsub (pt_y pt) y) (fsub (pt_y pt) y))))
                    radius))
   \<and> candidates x y strks
     = concat (map (\<lambda>stroke.
         map (\<lambda>pt. (stroke_id stroke,
                    fsqrt (fadd (fmul (fsub (pt_x pt) x) (fsub (pt_x pt) x))
                                (fmul (fsub (pt_y pt) y) (fsub (pt_y pt) y)))))
             (points stroke)) strks)
   \<and> (\<forall>i. findNearestStrokeId x y strks radius = Some i \<longrightarrow>
        (\<exists>k < length (candidates x y strks).
            fst (candidates x y strks ! k) = i
            \<and> flt (snd (candidates x y strks ! k)) radius
            \<and> (\<forall>j < length (candidates x y strks).
                  \<not> flt (snd (candidates x y strks ! j)) (snd (candidates x y strks ! k)))
            \<and> (\<forall>j < k. \<not> fle (snd (candidates x y strks ! j))
                              (snd (candidates x y strks ! k)))))"
proof -
  have "(\<forall>c \<in> set (candidates x y strks). \<not> flt (snd c) radius)
        \<longleftrightarrow> (\<forall>stroke \<in> set strks. \<forall>pt \<in> set (points stroke).
             \<not> flt (fsqrt (fadd (fmul (fsub (pt_x pt) x) (fsub (pt_x pt) x))
                               (fmul (fsub (pt_y pt) y) (fsub (pt_y pt) y))))
                    radius)"
    by (auto simp: candidates_def roundedEuclid_def)
  moreover have "candidates x y strks
     = concat (map (\<lambda>stroke.
         map (\<lambda>pt. (stroke_id stroke,
                    fsqrt (fadd (fmul (fsub (pt_x pt) x) (fsub (pt_x pt) x))
                                (fmul (fsub (pt_y pt) y) (fsub (pt_y pt) y)))))
             (points stroke)) strks)"
    by (simp add: candidates_def roundedEuclid_def)
  ultimately show ?thesis
    using nearest_by_candidates[of x y strks radius] by (simp only:) blast
qed

text \<open>
  Two dots at distance 3 from the origin and one at distance 10: the farther one loses
  though it comes first, of the two at distance 3 the one that comes first wins, and
  with radius 3 none is close enough.
\<close>

lemma small_rounds:
  "roundDouble 3 = Finite 3" "roundDouble 9 = Finite 9" "roundDouble 6 = Finite 6"
  "roundDouble 8 = Finite 8" "roundDouble 36 = Finite 36" "roundDouble 64 = Finite 64"
  "roundDouble 100 = Finite 100" "roundDouble 10 = Finite 10"
  using roundDouble_eval[where x = 3 and e = 1 and q = "1 / 2 ^ 51" and m = "3 * 2 ^ 51"]
    roundDouble_eval[where x = 9 and e = 3 and q = "1 / 2 ^ 49" and m = "9 * 2 ^ 49"]
    roundDouble_eval[where x = 6 and e = 2 and q = "1 / 2 ^ 50" and m = "6 * 2 ^ 50"]
    roundDouble_eval[where x = 8 and e = 3 and q = "1 / 2 ^ 49" and m = "8 * 2 ^ 49"]
    roundDouble_eval[where x = 36 and e = 5 and q = "1 / 2 ^ 47" and m = "36 * 2 ^ 47"]
    roundDouble_eval[where x = 64 and e = 6 and q = "1 / 2 ^ 46" and m = "64 * 2 ^ 46"]
    roundDouble_eval[where x = 100 and e = 6 and q = "1 / 2 ^ 46" and m = "100 * 2 ^ 46"]
    roundDouble_eval[where x = 10 and e = 3 and q = "1 / 2 ^ 49" and m = "10 * 2 ^ 49"]
  by (simp_all add: rd_parts)

lemma dot_distances:
  "pointDistance (Finite 0) (Finite 0) \<lparr>pt_x = Finite 3, pt_y = Finite 0, pressure = pr\<rparr>
   = Finite 3"
  "pointDistance (Finite 0) (Finite 0) \<lparr>pt_x = Finite 0, pt_y = Finite 3, pressure = pr\<rparr>
   = Finite 3"
  "pointDistance (Finite 0) (Finite 0) \<lparr>pt_x = Finite 6, pt_y = Finite 8, pressure = pr\<rparr>
   = Finite 10"
  by (simp_all add: pointDistance_def fsub_def fsquare_def fmul_def fsqrt_def roundDouble_0
      small_rounds)

theorem C7_witness:
  "findNearestStrokeId (Finite 0) (Finite 0) [dotFar, dotEast, dotSouth] (Finite 20) = Some ''a''
   \<and> findNearestStrokeId (Finite 0) (Finite 0) [dotSouth, dotEast, dotFar] (Finite 20)
       = Some ''b''
   \<and> findNearestStrokeId (Finite 0) (Finite 0) [dotFar] (Finite 20) = Some ''f''
   \<and> findNearestStrokeId (Finite 0) (Finite 0) [dotFar, dotEast, dotSouth] (Finite 3) = None"
  using C7_findNearestStrokeId[of "Finite 0" "Finite 0" "[dotFar, dotEast, dotSouth]" "Finite 20"]
  by (simp add: findNearestStrokeId_def scanPoint_def dot_distances dotEast_def dotSouth_def
      dotFar_def Let_def)

section \<open>Properties of canvas rendering\<close>

lemma lineWidths_calligraphy:
  assumes "brushType s = Calligraphy" and "length (points s) > 1"
  shows "lineWidths (renderStroke sel foc s cur)
         = map (\<lambda>(pt, next). calligraphyWidth s pt next) (adjacentPairs (points s))"
proof -
  have "concat (map lineWidths (map (\<lambda>(pt, next).
           LineNode (pt_x pt, pt_y pt) (pt_x next, pt_y next) (color s)
             (calligraphyWidth s pt next)) ps))
        = map (\<lambda>(pt, next). calligraphyWidth s pt next) ps" for ps
    by (induction ps) auto
  with assms show ?thesis
    by (simp add: renderStroke_def RegularStroke_def Let_def)
qed

lemma quadSegments_pressure:
  "quadSegments (map (\<lambda>pt. pt\<lparr>pressure := f pt\<rparr>) pts) = quadSegments pts"
  by (induction pts rule: quadSegments.induct) simp_all

lemma getSvgPathFromPoints_pressure:
  "getSvgPathFromPoints (map (\<lambda>pt. pt\<lparr>pressure := f pt\<rparr>) pts) = getSvgPathFromPoints pts"
proof (cases pts)
  case Nil
  then show ?thesis by (simp add: getSvgPathFromPoints_def)
next
  case (Cons p rest)
  show ?thesis
  proof (cases rest)
    case Nil
    with Cons show ?thesis by (simp add: getSvgPathFromPoints_def)
  next
    case (Cons q rest')
    have "last (map (\<lambda>pt. pt\<lparr>pressure := f pt\<rparr>) (q # rest'))
          = (last (q # rest'))\<lparr>pressure := f (last (q # rest'))\<rparr>"
      by (simp only: last_map[OF list.distinct(2)])
    with \<open>pts = p # rest\<close> Cons show ?thesis
      using quadSegments_pressure[of f "q # rest'"]
      by (simp add: getSvgPathFromPoints_def)
  qed
qed

text \<open>
  The claim's example, operation by operation: the doubles nearest to 0.2 and 0.4, their
  sum 0.6000000000000001, its half 0.30000000000000004, ten times that,
  3.0000000000000004, and one and a half times that, 4.500000000000001.
\<close>

lemma lit_0_2: "lit 0.2 = Finite (3602879701896397 / 2 ^ 54)"
  using roundDouble_eval[where x = "0.2" and e = "-3" and q = "1 / 2 ^ 55"
          and m = 7205759403792794]
  by (simp add: lit_def rd_parts)

lemma lit_0_4: "lit 0.4 = Finite (3602879701896397 / 2 ^ 53)"
  using roundDouble_eval[where x = "0.4" and e = "-2" and q = "1 / 2 ^ 54"
          and m = 7205759403792794]
  by (simp add: lit_def rd_parts)

lemma pressure_sum:
  "fadd (Finite (3602879701896397 / 2 ^ 54)) (Finite (3602879701896397 / 2 ^ 53))
   = Finite (1351079888211149 / 2 ^ 51)"
  using roundDouble_eval[where x = "3602879701896397 / 2 ^ 54 + 3602879701896397 / 2 ^ 53"
          and e = "-1" and q = "1 / 2 ^ 53" and m = 5404319552844596]
  by (simp add: rd_parts)

lemma pressure_average:
  "fdiv (Finite (1351079888211149 / 2 ^ 51)) (Finite 2) = Finite (1351079888211149 / 2 ^ 52)"
  using roundDouble_eval[where x = "1351079888211149 / 2 ^ 51 / 2"
          and e = "-2" and q = "1 / 2 ^ 54" and m = 5404319552844596]
  by (simp add: fdiv_def rd_parts)

lemma width_times_average:
  "fmul (Finite 10) (Finite (1351079888211149 / 2 ^ 52)) = Finite (6755399441055745 / 2 ^ 51)"
  using roundDouble_eval[where x = "10 * (1351079888211149 / 2 ^ 52)"
          and e = 1 and q = "1 / 2 ^ 51" and m = 6755399441055745]
  by (simp add: fmul_def rd_parts)

lemma width_times_factor:
  "fmul (Finite (6755399441055745 / 2 ^ 51)) (Finite 1.5) = Finite (5066549580791809 / 2 ^ 50)"
  using roundDouble_eval[where x = "6755399441055745 / 2 ^ 51 * 1.5"
          and e = 2 and q = "1 / 2 ^ 50" and m = 5066549580791809]
  by (simp add: fmul_def rd_parts)

lemma example_width:
  assumes "strokeWidth s = Finite 10" and "pressure p = lit 0.2" and "pressure q = lit 0.4"
  shows "calligraphyWidth s p q = Finite (5066549580791809 / 2 ^ 50)"
  unfolding calligraphyWidth_def Let_def assms lit_0_2 lit_0_4 pressure_sum pressure_average
    width_times_average width_times_factor
  by (simp add: fmax_def)

text \<open>
  At the claim's own input the one segment is not drawn at width 4.5 but one unit in the
  last place above it, at \<open>4.5 + 2 ^ - 50\<close>.
\<close>

theorem C8_counterexample:
  "lineWidths (renderStroke [] None calligraphyPair False) = [Finite (5066549580791809 / 2 ^ 50)]
   \<and> lineWidths (renderStroke [] None calligraphyPair False) \<noteq> [Finite 4.5]"
proof -
  have "lineWidths (renderStroke [] None calligraphyPair False)
        = map (\<lambda>(pt, next). calligraphyWidth calligraphyPair pt next)
            (adjacentPairs (points calligraphyPair))"
    by (rule lineWidths_calligraphy) (simp_all add: calligraphyPair_def)
  also have "\<dots> = [Finite (5066549580791809 / 2 ^ 50)]"
    by (simp add: adjacentPairs_def example_width calligraphyPair_def)
  finally show ?thesis by simp
qed

text \<open>
  C8, amended. A calligraphy stroke of two points or more is drawn as one line per pair
  of adjacent points, of width \<^verbatim>\<open>Math.max(1, strokeWidth * avgPressure * 1.5)\<close> with
  \<^verbatim>\<open>avgPressure = (p1 + p2) / 2\<close>, every operation in double precision; with stored width
  10 and the pressures 0.2 and 0.4 the one segment has width 4.500000000000001, that is
  \<open>4.5 + 2 ^ - 50\<close>. The rendering of a stroke of any other brush is the same whatever
  the pressures of its points are, and has no such segment; the path data is computed
  without the pressures.
\<close>

theorem C8_calligraphy_segment_width:
  "(brushType s = Calligraphy \<and> length (points s) \<ge> 2 \<longrightarrow>
      length (lineWidths (renderStroke sel foc s cur)) = length (points s) - 1
      \<and> (\<forall>i < length (points s) - 1.
            lineWidths (renderStroke sel foc s cur) ! i
            = fmax (Finite 1)
                (fmul (fmul (strokeWidth s)
                         (fdiv (fadd (pressure (points s ! i)) (pressure (points s ! Suc i)))
                               (Finite 2)))
                      (Finite 1.5))))
   \<and> (brushType s = Calligraphy \<and> strokeWidth s = Finite 10 \<and> points s = [p, q]
        \<and> pressure p = lit 0.2 \<and> pressure q = lit 0.4 \<longrightarrow>
      lineWidths (renderStroke sel foc s cur) = [Finite (4.5 + 1 / 2 ^ 50)])
   \<and> (brushType s \<noteq> Calligraphy \<longrightarrow>
      renderStroke sel foc (withPressures f s) cur = renderStroke sel foc s cur
      \<and> lineWidths (renderStroke sel foc s cur) = [])
   \<and> getSvgPathFromPoints (map (\<lambda>pt. pt\<lparr>pressure := f pt\<rparr>) (points s))
      = getSvgPathFromPoints (points s)"
proof (intro conjI impI)
  assume a: "brushType s = Calligraphy \<and> 2 \<le> length (points s)"
  then have w: "lineWidths (renderStroke sel foc s cur)
         = map (\<lambda>(pt, next). calligraphyWidth s pt next) (adjacentPairs (points s))"
    by (intro lineWidths_calligraphy) simp_all
  show "length (lineWidths (renderStroke sel foc s cur)) = length (points s) - 1"
    by (simp add: w length_adjacentPairs)
  show "\<forall>i < length (points s) - 1.
            lineWidths (renderStroke sel foc s cur) ! i
            = fmax (Finite 1)
                (fmul (fmul (strokeWidth s)
                         (fdiv (fadd (pressure (points s ! i)) (pressure (points s ! Suc i)))
                               (Finite 2)))
                      (Finite 1.5))"
    by (simp add: w length_adjacentPairs nth_adjacentPairs calligraphyWidth_def)
next
  assume a: "brushType s = Calligraphy \<and> strokeWidth s = Finite 10 \<and> points s = [p, q]
        \<and> pressure p = lit 0.2 \<and> pressure q = lit 0.4"
  then have "lineWidths (renderStroke sel foc s cur)
         = map (\<lambda>(pt, next). calligraphyWidth s pt next) (adjacentPairs (points s))"
    by (intro lineWidths_calligraphy) simp_all
  moreover have "calligraphyWidth s p q = Finite (5066549580791809 / 2 ^ 50)"
    using a by (intro example_width) simp_all
  ultimately show "lineWidths (renderStroke sel foc s cur) = [Finite (4.5 + 1 / 2 ^ 50)]"
    using a by (simp add: adjacentPairs_def)
next
  assume a: "brushType s \<noteq> Calligraphy"
  then show "renderStroke sel foc (withPressures f s) cur = renderStroke sel foc s cur"
    by (simp add: renderStroke_def RegularStroke_def MarkerStroke_def withPressures_def Let_def)
  from a show "lineWidths (renderStroke sel foc s cur) = []"
    by (simp add: renderStroke_def RegularStroke_def MarkerStroke_def Let_def)
next
  show "getSvgPathFromPoints (map (\<lambda>pt. pt\<lparr>pressure := f pt\<rparr>) (points s))
      = getSvgPathFromPoints (points s)"
    by (rule getSvgPathFromPoints_pressure)
qed

text \<open>
  The example stroke, the same stroke as a pen stroke, and as a marker stroke with all
  pressures set to 1.
\<close>

theorem C8_witness:
  "lineWidths (renderStroke [] None calligraphyPair False) = [Finite (4.5 + 1 / 2 ^ 50)]
   \<and> lineWidths (renderStroke [] None (calligraphyPair\<lparr>brushType := Pen\<rparr>) False) = []
   \<and> renderStroke [] None
        (withPressures (\<lambda>pt. Finite 1) (calligraphyPair\<lparr>brushType := Marker\<rparr>)) False
      = renderStroke [] None (calligraphyPair\<lparr>brushType := Marker\<rparr>) False"
  using C8_calligraphy_segment_width[where s = calligraphyPair
          and p = "\<lparr>pt_x = Finite 0, pt_y = Finite 0, pressure = lit 0.2\<rparr>"
          and q = "\<lparr>pt_x = Finite 10, pt_y = Finite 10, pressure = lit 0.4\<rparr>"
          and sel = "[]" and foc = None and cur = False and f = "\<lambda>pt. Finite 1"]
        C8_calligraphy_segment_width[where s = "calligraphyPair\<lparr>brushType := Pen\<rparr>"
          and sel = "[]" and foc = None and cur = False and f = "\<lambda>pt. Finite 1"]
        C8_calligraphy_segment_width[where s = "calligraphyPair\<lparr>brushType := Marker\<rparr>"
          and sel = "[]" and foc = None and cur = False and f = "\<lambda>pt. Finite 1"]
  by (simp add: calligraphyPair_def)

section \<open>Properties of the SVG serialisation\<close>







lemma toFixed_examples:
  "toFixed str 2 (Finite 1) = ''1.00''"
  "toFixed str 2 (Finite (- (5 / 4))) = ''-1.25''"
  "toFixed str 1 (Finite (1 / 4)) = ''0.3''"
  "toFixed str 2 (Finite (1 / 1024)) = ''0.00''"
  by (simp_all add: toFixed_def Let_def decimalDigits.simps digitChar_def)

lemma fixedNumbers_append [simp]:
  "fixedNumbers (a @ b) = fixedNumbers a @ fixedNumbers b"
  by (induction a rule: fixedNumbers.induct) simp_all

lemma defaultNumbers_append [simp]:
  "defaultNumbers (a @ b) = defaultNumbers a @ defaultNumbers b"
  by (induction a rule: defaultNumbers.induct) simp_all



lemma fixedNumbers_quadSegments [simp]: "fixedNumbers (quadSegments pts) = []"
  by (induction pts rule: quadSegments.induct) simp_all

























section \<open>Properties of persistence\<close>

lemma loadEach_corrupt:
  "i \<in> set ids \<Longrightarrow> getItem rt (DRAWING_PREFIX @ i) = Inr (Some drawingJson) \<Longrightarrow>
   drawingJson \<noteq> [] \<Longrightarrow> parseDrawing rt drawingJson = Inl e \<Longrightarrow>
   \<exists>e'. loadEach rt ids loadedDrawings = Inl e'"
proof (induction ids arbitrary: loadedDrawings)
  case Nil
  then show ?case by simp
next
  case (Cons j ids)
  show ?case
  proof (cases "j = i")
    case True
    with Cons.prems show ?thesis by simp
  next
    case False
    with Cons.prems have "i \<in> set ids" by simp
    then have "\<exists>e'. loadEach rt ids acc = Inl e'" for acc
      using Cons.IH Cons.prems(2,3,4) by blast
    then show ?thesis
      by (auto split: sum.splits option.splits)
  qed
qed

text \<open>
  C9. When the index lists a record that is stored and does not decode, the \<^verbatim>\<open>try\<close>
  block of \<open>loadDrawings\<close> ends with an exception whatever the other records are: the
  list of drawings is not replaced, the error message is set and loading is over.
\<close>

theorem C9_corrupt_record_aborts_load:
  assumes "getItem rt DRAWINGS_INDEX_KEY = Inr (Some indexJson)" and "indexJson \<noteq> []"
    and "parseIndex rt indexJson = Inr ids" and "i \<in> set ids"
    and "getItem rt (DRAWING_PREFIX @ i) = Inr (Some drawingJson)" and "drawingJson \<noteq> []"
    and "parseDrawing rt drawingJson = Inl SyntaxError"
  shows "(\<exists>e. tryLoad rt = Inl e)
         \<and> drawings (loadDrawings rt st) = drawings st
         \<and> error (loadDrawings rt st) = Some ''Erreur lors du chargement des dessins''
         \<and> isLoading (loadDrawings rt st) = False"
proof -
  obtain e where "loadEach rt ids [] = Inl e"
    using loadEach_corrupt[OF assms(4,5,6,7)] by blast
  then have "tryLoad rt = Inl e"
    using assms(1,2,3) by (simp add: tryLoad_def)
  then show ?thesis by (simp add: loadDrawings_def)
qed

text \<open>
  With the cut record in the index the first load yields no drawing and the error;
  without it, the same store yields the good record.
\<close>

theorem C9_witness:
  "drawings (loadDrawings (demoRuntime ''[a,b]'') initialStorage) = []
   \<and> error (loadDrawings (demoRuntime ''[a,b]'') initialStorage)
       = Some ''Erreur lors du chargement des dessins''
   \<and> drawings (loadDrawings (demoRuntime ''[a]'') initialStorage) = [sketchOne]
   \<and> error (loadDrawings (demoRuntime ''[a]'') initialStorage) = None"
proof -
  have "drawings (loadDrawings (demoRuntime ''[a,b]'') initialStorage) = drawings initialStorage
        \<and> error (loadDrawings (demoRuntime ''[a,b]'') initialStorage)
           = Some ''Erreur lors du chargement des dessins''"
    using C9_corrupt_record_aborts_load[of "demoRuntime ''[a,b]''" "''[a,b]''" "[''a'', ''b'']"
            "''b''" "''{tw''" initialStorage]
    by (simp add: demoRuntime_def DRAWINGS_INDEX_KEY_def DRAWING_PREFIX_def)
  moreover have "drawings (loadDrawings (demoRuntime ''[a]'') initialStorage) = [sketchOne]
        \<and> error (loadDrawings (demoRuntime ''[a]'') initialStorage) = None"
    by (simp add: loadDrawings_def tryLoad_def demoRuntime_def DRAWINGS_INDEX_KEY_def
        DRAWING_PREFIX_def initialStorage_def sketchOne_def)
  ultimately show ?thesis by (simp add: initialStorage_def)
qed

end
